theory Spec2Isabelle
  imports Main "HOL-Library.Sublist"
begin

section \<open>Paths\<close>

text \<open>
  The script runs on absolute, normalised directory names: \<open>process.cwd()\<close> and whatever
  \<open>path.join\<close> and \<open>path.resolve\<close> build from it. Such a name is the list of its components
  below the file-system root (the root itself is the empty list), in the POSIX flavour of
  Node's \<open>path\<close> module, where \<open>path.sep\<close> is a slash. \<open>path_str\<close> is the string the script
  sees.
\<close>

type_synonym path = "string list"

definition path_sep :: string where
  "path_sep = ''/''"

fun path_str :: "path \<Rightarrow> string" where
  "path_str [] = path_sep"
| "path_str (c # cs) = concat (map (\<lambda>d. path_sep @ d) (c # cs))"

text \<open>\<open>path.join(dir, f)\<close> for an entry name \<open>f\<close> that \<open>fs.readdirSync\<close> returned.\<close>

definition path_join :: "path \<Rightarrow> string \<Rightarrow> path" where
  "path_join dir f = dir @ [f]"

text \<open>\<open>path.join(dir, '..')\<close>: the parent directory, and the root for the root.\<close>

definition path_parent :: "path \<Rightarrow> path" where
  "path_parent dir = butlast dir"

section \<open>The file system\<close>

text \<open>
  A node is a file with its contents, a directory with its entries in the order
  \<open>fs.readdirSync\<close> lists them, or an entry that \<open>fs.statSync\<close> cannot follow (a dangling
  link), for which it raises.
\<close>

datatype fsnode = File string | Dir "(string \<times> fsnode) list" | Broken

datatype error = ENOENT | ENOTDIR | EACCES | EEXIST | EIO | SyntaxError | TypeError

fun fs_lookup :: "fsnode \<Rightarrow> path \<Rightarrow> fsnode option" where
  "fs_lookup node [] = Some node"
| "fs_lookup (Dir entries) (c # cs) =
     (case map_of entries c of None \<Rightarrow> None | Some node \<Rightarrow> fs_lookup node cs)"
| "fs_lookup (File data) (c # cs) = None"
| "fs_lookup Broken (c # cs) = None"

datatype stats = StatFile | StatDirectory

definition isDirectory :: "stats \<Rightarrow> bool" where
  "isDirectory st = (st = StatDirectory)"

definition statSync :: "fsnode \<Rightarrow> path \<Rightarrow> error + stats" where
  "statSync fs p =
     (case fs_lookup fs p of
        None \<Rightarrow> Inl ENOENT
      | Some Broken \<Rightarrow> Inl ENOENT
      | Some (File data) \<Rightarrow> Inr StatFile
      | Some (Dir entries) \<Rightarrow> Inr StatDirectory)"

section \<open>Arrays and strings of the host language\<close>

text \<open>\<open>Array.prototype.indexOf\<close>: the first index holding the element, or \<open>-1\<close>.\<close>

fun array_indexOf :: "'a list \<Rightarrow> 'a \<Rightarrow> int" where
  "array_indexOf [] x = -1"
| "array_indexOf (y # ys) x =
     (if y = x then 0 else (let i = array_indexOf ys x in if i = -1 then -1 else i + 1))"

text \<open>
  \<open>Array.prototype.map\<close> with a callback that may raise: the first exception, in array
  order, leaves the loop.
\<close>

fun map_throw :: "('a \<Rightarrow> 'e + 'b) \<Rightarrow> 'a list \<Rightarrow> 'e + 'b list" where
  "map_throw f [] = Inr []"
| "map_throw f (x # xs) =
     (case f x of
        Inl e \<Rightarrow> Inl e
      | Inr y \<Rightarrow> (case map_throw f xs of Inl e \<Rightarrow> Inl e | Inr ys \<Rightarrow> Inr (y # ys)))"

lemma map_throw_cong [fundef_cong]:
  "xs = ys \<Longrightarrow> (\<And>x. x \<in> set ys \<Longrightarrow> f x = g x) \<Longrightarrow> map_throw f xs = map_throw g ys"
  by (induction ys arbitrary: xs) (auto split: sum.splits)

section \<open>walkDirSync\<close>

text \<open>
  The value \<open>walkDirSync\<close> returns is a single path (the argument was a file) or an array
  of paths. The reducer spreads an array into the accumulator and appends a single path.
\<close>

datatype walked = Single path | Many "path list"

fun reduce_step :: "path list \<Rightarrow> walked \<Rightarrow> path list" where
  "reduce_step acc (Many fs) = acc @ fs"
| "reduce_step acc (Single f) = acc @ [f]"

text \<open>
  \<open>walkDirSync dir node exclude\<close>: \<open>node\<close> is what the file system holds at \<open>dir\<close>, that
  is what \<open>fs.statSync(dir)\<close> and \<open>fs.readdirSync(dir)\<close> observe.
\<close>

fun walkDirSync :: "path \<Rightarrow> fsnode \<Rightarrow> string list \<Rightarrow> error + walked" where
  "walkDirSync dir Broken exclude = Inl ENOENT"
| "walkDirSync dir (File data) exclude = Inr (Single dir)"
| "walkDirSync dir (Dir entries) exclude =
     (case map_throw (\<lambda>(f, node). walkDirSync (path_join dir f) node exclude)
             (filter (\<lambda>(f, node). array_indexOf exclude f = -1) entries) of
        Inl e \<Rightarrow> Inl e
      | Inr rs \<Rightarrow> Inr (Many (foldl reduce_step [] rs)))"

text \<open>The call \<open>walkDirSync(dir)\<close> on a file system: \<open>fs.statSync\<close> raises for a missing path.\<close>

definition walk :: "fsnode \<Rightarrow> path \<Rightarrow> string list \<Rightarrow> error + walked" where
  "walk fs dir exclude =
     (case fs_lookup fs dir of
        None \<Rightarrow> Inl ENOENT
      | Some node \<Rightarrow> walkDirSync dir node exclude)"

text \<open>
  Two notions for stating what the walk guarantees: the paths a result holds, and the
  tree with every excluded entry removed, at every depth.
\<close>

definition paths_of :: "walked \<Rightarrow> path list" where
  "paths_of w = (case w of Single p \<Rightarrow> [p] | Many ps \<Rightarrow> ps)"

fun prune :: "string list \<Rightarrow> fsnode \<Rightarrow> fsnode" where
  "prune exclude (Dir entries) =
     Dir (map (\<lambda>(f, node). (f, prune exclude node))
            (filter (\<lambda>(f, node). f \<notin> set exclude) entries))"
| "prune exclude (File data) = File data"
| "prune exclude Broken = Broken"

section \<open>Strings: searching, base names, extensions\<close>

text \<open>\<open>String.prototype.indexOf\<close>: the first index where the pattern occurs, or \<open>-1\<close>.\<close>

fun string_indexOf :: "string \<Rightarrow> string \<Rightarrow> int" where
  "string_indexOf [] t = (if t = [] then 0 else -1)"
| "string_indexOf (c # cs) t =
     (if prefix t (c # cs) then 0
      else (let i = string_indexOf cs t in if i = -1 then -1 else i + 1))"

text \<open>
  \<open>path.basename(p)\<close>: trailing slashes are dropped, then what follows the last slash is
  returned.
\<close>

definition basename :: "string \<Rightarrow> string" where
  "basename p =
     rev (takeWhile (\<lambda>c. c \<noteq> CHR ''/'') (dropWhile (\<lambda>c. c = CHR ''/'') (rev p)))"

text \<open>
  \<open>path.basename(p, ext)\<close>: the extension is cut from the base name, unless the base name
  is the extension itself; a path that is the extension and nothing else gives the empty
  string.
\<close>

definition basename_ext :: "string \<Rightarrow> string \<Rightarrow> string" where
  "basename_ext p ext =
     (let b = basename p in
      if ext \<noteq> [] \<and> p = ext then []
      else if ext \<noteq> [] \<and> suffix ext b \<and> b \<noteq> ext then take (length b - length ext) b
      else b)"

text \<open>
  \<open>path.extname(p)\<close>: from the last dot of the base name to its end; empty when the base
  name has no dot, when its only dot is its first character, and for \<open>..\<close>.
\<close>

definition extname :: "string \<Rightarrow> string" where
  "extname p =
     (let b = basename p;
          ext = rev (takeWhile (\<lambda>c. c \<noteq> CHR ''.'') (rev b));
          stem = take (length b - length ext - 1) b
      in if length ext = length b \<or> stem = [] \<or> b = ''..'' then []
         else CHR ''.'' # ext)"

section \<open>The bundle-reference pattern\<close>

text \<open>
  The regular expression is \<^verbatim>\<open>([^"'])+\.bundle([^"'])+\<close> with the global flag: one or more
  characters that are not quotes, the text \<open>.bundle\<close>, one or more characters that are not
  quotes. Both repetitions are greedy, and the first gives characters back one at a time
  until the rest of the pattern matches.
\<close>

definition not_quote :: "char \<Rightarrow> bool" where
  "not_quote c = (c \<noteq> CHR 0x22 \<and> c \<noteq> CHR 0x27)"

text \<open>The last repetition: the longest run of non-quotes, which must not be empty.\<close>

definition match_rest :: "string \<Rightarrow> string option" where
  "match_rest s = (let r = takeWhile not_quote s in if r = [] then None else Some r)"

text \<open>The text \<open>.bundle\<close> followed by the last repetition.\<close>

definition match_bundle :: "string \<Rightarrow> string option" where
  "match_bundle s =
     (if prefix ''.bundle'' s
      then (case match_rest (drop 7 s) of None \<Rightarrow> None | Some r \<Rightarrow> Some (''.bundle'' @ r))
      else None)"

text \<open>
  The first repetition takes \<open>n\<close> characters, \<open>n\<close> counting down from the longest run of
  non-quotes to one.
\<close>

fun match_plus :: "nat \<Rightarrow> string \<Rightarrow> string option" where
  "match_plus 0 s = None"
| "match_plus (Suc n) s =
     (case match_bundle (drop (Suc n) s) of
        Some m \<Rightarrow> Some (take (Suc n) s @ m)
      | None \<Rightarrow> match_plus n s)"

definition match_at :: "string \<Rightarrow> string option" where
  "match_at s = match_plus (length (takeWhile not_quote s)) s"

text \<open>
  The global scan: the leftmost match, then the scan resumes where it ended. A match
  \<open>m\<close> found at \<open>c # cs\<close> begins with \<open>c\<close>, so the scan resumes in \<open>cs\<close> after its other
  \<open>length m - 1\<close> characters.
\<close>

fun match_all :: "string \<Rightarrow> string list" where
  "match_all [] = []"
| "match_all (c # cs) =
     (case match_at (c # cs) of
        Some m \<Rightarrow> m # match_all (drop (length m - 1) cs)
      | None \<Rightarrow> match_all cs)"

text \<open>\<open>String.prototype.match\<close> with a global pattern: \<open>null\<close> when nothing matches.\<close>

definition String_match :: "string \<Rightarrow> string list option" where
  "String_match s = (case match_all s of [] \<Rightarrow> None | m # ms \<Rightarrow> Some (m # ms))"

text \<open>
  \<open>String.prototype.replace\<close> with a string pattern replaces the first occurrence only,
  and expands in the replacement \<open>$$\<close>, \<open>$&\<close>, \<open>$`\<close> and \<open>$'\<close> (there are no groups, so
  \<open>$1\<close> stays as it is).
\<close>

fun substitution :: "string \<Rightarrow> string \<Rightarrow> string \<Rightarrow> string \<Rightarrow> string" where
  "substitution left matched right [] = []"
| "substitution left matched right [c] = [c]"
| "substitution left matched right (c # d # r) =
     (if c = CHR ''$'' \<and> d = CHR ''$'' then CHR ''$'' # substitution left matched right r
      else if c = CHR ''$'' \<and> d = CHR ''&'' then matched @ substitution left matched right r
      else if c = CHR ''$'' \<and> d = CHR 0x60 then left @ substitution left matched right r
      else if c = CHR ''$'' \<and> d = CHR 0x27 then right @ substitution left matched right r
      else c # substitution left matched right (d # r))"

definition string_replace :: "string \<Rightarrow> string \<Rightarrow> string \<Rightarrow> string" where
  "string_replace s p r =
     (let i = string_indexOf s p in
      if i = -1 then s
      else (let left = take (nat i) s; right = drop (nat i + length p) s
            in left @ substitution left p right r @ right))"

section \<open>The environment of a run\<close>

text \<open>
  A manifest as \<open>require\<close> returns it: a value of the host language. Numbers are read
  only for being zero or not.
\<close>

datatype jsval =
    JUndefined | JNull | JBool bool | JNum int | JStr string
  | JArr "jsval list" | JObj "(string \<times> jsval) list"

fun truthy :: "jsval \<Rightarrow> bool" where
  "truthy JUndefined = False"
| "truthy JNull = False"
| "truthy (JBool b) = b"
| "truthy (JNum n) = (n \<noteq> 0)"
| "truthy (JStr s) = (s \<noteq> [])"
| "truthy (JArr xs) = True"
| "truthy (JObj kvs) = True"

text \<open>
  Reading the property \<open>dependencies\<close> or \<open>react-vr\<close>: an object gives its own property,
  \<open>null\<close> and \<open>undefined\<close> raise, every other value has no property of either name.
\<close>

fun get_prop :: "jsval \<Rightarrow> string \<Rightarrow> error + jsval" where
  "get_prop (JObj kvs) k = (case map_of kvs k of None \<Rightarrow> Inr JUndefined | Some v \<Rightarrow> Inr v)"
| "get_prop JUndefined k = Inl TypeError"
| "get_prop JNull k = Inl TypeError"
| "get_prop v k = Inr JUndefined"

text \<open>
  A spawned process: the executable, its arguments and the working directory. An
  argument is a string, or the array \<open>buildDir\<close> where the script passes it as it is.
\<close>

datatype arg = Str string | Arr "string list"

datatype spawn_call = Spawn string "arg list" path

text \<open>
  What a run reads from outside: the file system, the working directory, the variable
  \<open>RN_CLI_LOCATION\<close>, what \<open>require\<close> returns or raises for a path, the code with which a
  spawned process closes (\<open>None\<close> is \<open>null\<close>: it was killed by a signal), and the errors of
  \<open>fs.mkdir\<close> and \<open>fs.writeFile\<close>.
\<close>

record env =
  fs :: fsnode
  cwd :: path
  rn_cli_location :: "string option"
  require :: "path \<Rightarrow> error + jsval"
  exit_code :: "spawn_call \<Rightarrow> int option"
  mkdir_error :: "path \<Rightarrow> error option"
  writeFile_error :: "path \<Rightarrow> error option"

definition readFile :: "env \<Rightarrow> path \<Rightarrow> error + string" where
  "readFile e file =
     (case fs_lookup (fs e) file of
        Some (File data) \<Rightarrow> Inr data
      | Some (Dir entries) \<Rightarrow> Inl EIO
      | Some Broken \<Rightarrow> Inl ENOENT
      | None \<Rightarrow> Inl ENOENT)"

section \<open>Promises\<close>

text \<open>
  A promise settles once: \<open>resolve\<close> and \<open>reject\<close> change a pending promise only. What a
  promise of the script is rejected with is an exit code or an error.
\<close>

datatype reason = Code "int option" | Err error

datatype promise = Pending | Fulfilled | Rejected reason

definition resolve :: "promise \<Rightarrow> promise" where
  "resolve p = (case p of Pending \<Rightarrow> Fulfilled | Fulfilled \<Rightarrow> Fulfilled | Rejected r \<Rightarrow> Rejected r)"

definition reject :: "reason \<Rightarrow> promise \<Rightarrow> promise" where
  "reject r p = (case p of Pending \<Rightarrow> Rejected r | Fulfilled \<Rightarrow> Fulfilled | Rejected r' \<Rightarrow> Rejected r')"

text \<open>The listener of \<open>close\<close>, the same in \<open>buildScript\<close> and \<open>copyDirRecursive\<close>.\<close>

definition on_close :: "int option \<Rightarrow> promise \<Rightarrow> promise" where
  "on_close code p = resolve (if code \<noteq> Some 0 then reject (Code code) p else p)"

text \<open>The callback of \<open>fs.writeFile\<close> in \<open>replaceBundleExtensionsInHtml\<close>.\<close>

definition on_written :: "error option \<Rightarrow> promise \<Rightarrow> promise" where
  "on_written err p = resolve (case err of Some e \<Rightarrow> reject (Err e) p | None \<Rightarrow> p)"

section \<open>The operations of a run\<close>

text \<open>
  An operation as the run sees it: the processes it spawned when it was started, and,
  once it has completed, the files it wrote, its promise, and the exception that left
  one of its callbacks, if any.
\<close>

record operation =
  spawned :: "spawn_call list"
  wrote :: "(path \<times> string) list"
  settled :: promise
  uncaught :: "error option"

text \<open>
  \<open>buildDir\<close> is the array of the working directory and the name \<open>build\<close>;
  \<open>path.resolve(...buildDir, x)\<close> and \<open>path.join(...buildDir)\<close> are directories below it.
  The platform is not Windows, so the executables are \<open>node\<close> and \<open>cp\<close> with \<open>-r\<close>.
\<close>

type_synonym build_dir = "path \<times> string"

fun build_path :: "build_dir \<Rightarrow> string list \<Rightarrow> path" where
  "build_path (dir, name) rest = dir @ name # rest"

definition cliLocation :: "env \<Rightarrow> string" where
  "cliLocation e =
     (case rn_cli_location e of
        Some s \<Rightarrow> if s \<noteq> [] then s
                  else path_str (cwd e @ [''node_modules'', ''react-native'', ''local-cli'', ''cli.js''])
      | None \<Rightarrow> path_str (cwd e @ [''node_modules'', ''react-native'', ''local-cli'', ''cli.js'']))"

definition bundle_call :: "env \<Rightarrow> path \<Rightarrow> build_dir \<Rightarrow> path \<Rightarrow> path \<Rightarrow> spawn_call" where
  "bundle_call e root buildDir input output =
     Spawn ''node''
       [Str (cliLocation e), Str ''bundle'',
        Str ''--entry-file'', Str (path_str input),
        Str ''--platform'', Str ''vr'',
        Str ''--bundle-output'', Str (path_str output),
        Str ''--dev'', Str ''false'',
        Str ''--assets-dest'', Arr [path_str (fst buildDir), snd buildDir]]
       root"

definition buildScript :: "env \<Rightarrow> path \<Rightarrow> build_dir \<Rightarrow> path \<Rightarrow> path \<Rightarrow> operation" where
  "buildScript e root buildDir input output =
     (let npm = bundle_call e root buildDir input output
      in \<lparr>spawned = [npm], wrote = [], settled = on_close (exit_code e npm) Pending,
          uncaught = None\<rparr>)"

definition copy_call :: "path \<Rightarrow> path \<Rightarrow> path \<Rightarrow> spawn_call" where
  "copy_call root dir dest = Spawn ''cp'' [Str ''-r'', Str (path_str dir), Str (path_str dest)] root"

definition copyDirRecursive :: "env \<Rightarrow> path \<Rightarrow> path \<Rightarrow> path \<Rightarrow> operation" where
  "copyDirRecursive e root dir dest =
     (let npm = copy_call root dir dest
      in \<lparr>spawned = [npm], wrote = [], settled = on_close (exit_code e npm) Pending,
          uncaught = None\<rparr>)"

text \<open>
  \<open>replaceBundleExtensionsInHtml\<close>. When the read fails the promise is rejected and the
  callback goes on to \<open>data.toString()\<close> on \<open>undefined\<close>, which raises. When nothing
  matches, \<open>bundlePaths\<close> is \<open>null\<close> and reading its \<open>length\<close> raises, before anything is
  written. An array of matches is never empty; the first write is kept as the script has
  it.
\<close>

definition updatedPath :: "string \<Rightarrow> string" where
  "updatedPath p = path_sep @ takeWhile (\<lambda>c. c \<noteq> CHR ''.'') (basename p) @ ''.bundle.js''"

definition replaceBundleExtensionsInHtml :: "env \<Rightarrow> path \<Rightarrow> build_dir \<Rightarrow> operation" where
  "replaceBundleExtensionsInHtml e file buildDir =
     (case readFile e file of
        Inl err \<Rightarrow>
          \<lparr>spawned = [], wrote = [], settled = reject (Err err) Pending,
           uncaught = Some TypeError\<rparr>
      | Inr data \<Rightarrow>
          (let filePath = build_path buildDir [basename (path_str file)] in
           case String_match data of
             None \<Rightarrow>
               \<lparr>spawned = [], wrote = [], settled = Pending, uncaught = Some TypeError\<rparr>
           | Some bundlePaths \<Rightarrow>
               (let first = (if bundlePaths = [] then [data] else []);
                    fileData = foldl (\<lambda>fileData p. string_replace fileData p (updatedPath p))
                                 data bundlePaths;
                    err = writeFile_error e filePath
                in \<lparr>spawned = [],
                    wrote = (case err of
                               None \<Rightarrow> map (\<lambda>d. (filePath, d)) (first @ [fileData])
                             | Some x \<Rightarrow> []),
                    settled = on_written err Pending,
                    uncaught = None\<rparr>)))"

section \<open>Locating the project\<close>

definition hasPackage :: "env \<Rightarrow> path \<Rightarrow> error + bool" where
  "hasPackage e dir =
     (let packagePath = path_join dir ''package.json'' in
      case statSync (fs e) packagePath of
        Inl err \<Rightarrow> Inr False
      | Inr st \<Rightarrow>
          (case require e packagePath of
             Inl err \<Rightarrow> Inl err
           | Inr pkg \<Rightarrow>
               if \<not> truthy pkg then Inr False
               else (case get_prop pkg ''dependencies'' of
                       Inl err \<Rightarrow> Inl err
                     | Inr deps \<Rightarrow>
                         if \<not> truthy deps then Inr False
                         else (case get_prop deps ''react-vr'' of
                                 Inl err \<Rightarrow> Inl err
                               | Inr v \<Rightarrow> Inr (truthy v)))))"

text \<open>
  The search loop ends with the directory found, with \<open>process.exit(1)\<close> at the root, or
  with the exception that left \<open>hasPackage\<close>.
\<close>

datatype located = Found path | NotFound | Raised error

function locate :: "env \<Rightarrow> path \<Rightarrow> located" where
  "locate e projectDir =
     (case hasPackage e projectDir of
        Inl err \<Rightarrow> Raised err
      | Inr True \<Rightarrow> Found projectDir
      | Inr False \<Rightarrow>
          (let next = path_parent projectDir in
           if projectDir = next then NotFound else locate e (path_parent projectDir)))"
  by pat_completeness auto
termination
proof (relation "measure (\<lambda>(e, projectDir). length projectDir)", goal_cases)
  case 1
  show ?case by simp
next
  case (2 e projectDir b parent)
  then have "projectDir \<noteq> []" by (auto simp: path_parent_def)
  then show ?case by (simp add: path_parent_def)
qed

text \<open>The directories the search visits, nearest first: the start, its parent, up to the root.\<close>

fun ancestors :: "path \<Rightarrow> path list" where
  "ancestors dir = (if dir = [] then [[]] else dir # ancestors (butlast dir))"

section \<open>The run\<close>

text \<open>
  What a run leaves behind: the exit status (\<open>None\<close> while the process still waits for an
  operation), the lines it printed, the processes it spawned and the files it wrote
  itself. The lines are the not-found message, the message that the directory could not be
  created, the success message with the resolved output directory, the failure message
  with what the chain was rejected with, and the trace that the runtime prints for an
  exception nothing catches, after which it exits with status 1.
\<close>

datatype message = CouldNotFind | FailedToCreate string | Success path | Failure reason | Trace error

record outcome =
  status :: "nat option"
  console :: "message list"
  launched :: "spawn_call list"
  written :: "(path \<times> string) list"

text \<open>
  The first promise of the chain. A directory that \<open>fs.mkdir\<close> creates is named \<open>build\<close>,
  a name the walk excludes, so the rest of the run cannot observe it and the tree is
  left as it is.
\<close>

definition make_build_dir :: "env \<Rightarrow> build_dir \<Rightarrow> message list \<times> promise" where
  "make_build_dir e buildDir =
     (let isDir = (case statSync (fs e) (build_path buildDir []) of
                     Inr st \<Rightarrow> isDirectory st
                   | Inl err \<Rightarrow> False)
      in if isDir then ([], resolve Pending)
         else (case mkdir_error e (build_path buildDir []) of
                 Some err \<Rightarrow> ([FailedToCreate (snd buildDir)], reject (Code (Some 1)) Pending)
               | None \<Rightarrow> ([], resolve Pending)))"

text \<open>
  \<open>Promise.all\<close> over the operations, which complete in an order the script does not
  control: \<open>order\<close> lists their indices as they complete. An exception that leaves a
  callback ends the process; the first rejection rejects the whole; when no operation
  is pending any more the whole is fulfilled. Each operation is taken as one step, with
  the files it wrote.
\<close>

datatype joined = AllFulfilled | FirstRejected reason | Crashed error | Waiting

fun promise_all ::
  "operation list \<Rightarrow> nat list \<Rightarrow> nat list \<Rightarrow> (path \<times> string) list
     \<Rightarrow> joined \<times> (path \<times> string) list" where
  "promise_all ops pending [] w = (if pending = [] then AllFulfilled else Waiting, w)"
| "promise_all ops pending (i # order) w =
     (if i \<notin> set pending then promise_all ops pending order w
      else (case uncaught (ops ! i) of
              Some err \<Rightarrow> (Crashed err, w @ wrote (ops ! i))
            | None \<Rightarrow>
                (case settled (ops ! i) of
                   Rejected r \<Rightarrow> (FirstRejected r, w @ wrote (ops ! i))
                 | Fulfilled \<Rightarrow>
                     promise_all ops (removeAll i pending) order (w @ wrote (ops ! i))
                 | Pending \<Rightarrow> promise_all ops pending order w)))"

definition exclude_names :: "string list" where
  "exclude_names =
     [''node_modules'', ''build'', ''__tests__'', ''static_assets'', ''.babelrc'',
      ''.flowconfig'', ''.git'', ''.gitignore'', ''.watchmanconfig'', ''yarn.lock'',
      ''package.json'', ''rn-cli.config.js'']"

definition staticAssetsDir :: string where
  "staticAssetsDir = ''static_assets''"

definition failed :: "reason \<Rightarrow> message list \<Rightarrow> spawn_call list \<Rightarrow> outcome" where
  "failed r msgs calls =
     \<lparr>status = Some 1, console = msgs @ [Failure r], launched = calls, written = []\<rparr>"

definition report ::
  "joined \<Rightarrow> build_dir \<Rightarrow> spawn_call list \<Rightarrow> (path \<times> string) list \<Rightarrow> outcome" where
  "report j buildDir calls w =
     (case j of
        AllFulfilled \<Rightarrow>
          \<lparr>status = Some 0, console = [Success (build_path buildDir [])],
           launched = calls, written = w\<rparr>
      | FirstRejected r \<Rightarrow>
          \<lparr>status = Some 1, console = [Failure r], launched = calls, written = w\<rparr>
      | Crashed err \<Rightarrow>
          \<lparr>status = Some 1, console = [Trace err], launched = calls, written = w\<rparr>
      | Waiting \<Rightarrow>
          \<lparr>status = None, console = [], launched = calls, written = w\<rparr>)"

text \<open>
  The callback of the first \<open>then\<close> and the two that report. The walked paths are
  absolute, so \<open>path.resolve(projectDir, file)\<close> is \<open>file\<close>. An exception inside the
  callback (the walk raises, the walk returned a string, which has no \<open>find\<close>, or
  \<open>path.resolve\<close> is given \<open>undefined\<close>) rejects the chain; the bundlers of the component
  files are spawned by then, the client bundler and the copy are not, and no read of an
  HTML file has completed.
\<close>

definition build :: "env \<Rightarrow> path \<Rightarrow> build_dir \<Rightarrow> nat list \<Rightarrow> outcome" where
  "build e projectDir buildDir order =
     (case walk (fs e) projectDir exclude_names of
        Inl err \<Rightarrow> failed (Err err) [] []
      | Inr (Single f) \<Rightarrow> failed (Err TypeError) [] []
      | Inr (Many projectDirContents) \<Rightarrow>
          (let clientJsFile =
                 find (\<lambda>f. string_indexOf (path_str f) ''client.js'' \<noteq> -1) projectDirContents;
               vrComponentFiles =
                 map (\<lambda>file. buildScript e projectDir buildDir file
                        (build_path buildDir
                           [basename_ext (path_str file) ''.vr.js'' @ ''.bundle.js'']))
                   (filter (\<lambda>file. suffix ''.vr.js'' (path_str file)) projectDirContents);
               htmlFiles =
                 map (\<lambda>file. replaceBundleExtensionsInHtml e file buildDir)
                   (filter (\<lambda>file. extname (path_str file) = ''.html'') projectDirContents)
           in case clientJsFile of
                None \<Rightarrow>
                  failed (Err TypeError) [] (concat (map spawned (vrComponentFiles @ htmlFiles)))
              | Some client \<Rightarrow>
                  (let ops = vrComponentFiles @ htmlFiles @
                         [buildScript e projectDir buildDir client
                            (build_path buildDir [''client.bundle.js'']),
                          copyDirRecursive e projectDir
                            (projectDir @ [staticAssetsDir])
                            (build_path buildDir [staticAssetsDir])];
                       done = promise_all ops [0..<length ops] order []
                   in report (fst done) buildDir (concat (map spawned ops)) (snd done))))"

definition main :: "env \<Rightarrow> nat list \<Rightarrow> outcome" where
  "main e order =
     (let buildDirName = ''build'';
          buildDir = (cwd e, buildDirName)
      in case locate e (cwd e) of
           NotFound \<Rightarrow>
             \<lparr>status = Some 1, console = [CouldNotFind], launched = [], written = []\<rparr>
         | Raised err \<Rightarrow>
             \<lparr>status = Some 1, console = [Trace err], launched = [], written = []\<rparr>
         | Found projectDir \<Rightarrow>
             (case make_build_dir e buildDir of
                (msgs, Rejected r) \<Rightarrow> failed r msgs []
              | (msgs, Fulfilled) \<Rightarrow> build e projectDir buildDir order
              | (msgs, Pending) \<Rightarrow>
                  \<lparr>status = None, console = msgs, launched = [], written = []\<rparr>))"

section \<open>Notions and examples for the statements\<close>

text \<open>A tree every entry of which \<open>fs.statSync\<close> can follow.\<close>

fun intact :: "fsnode \<Rightarrow> bool" where
  "intact (Dir entries) = list_all (\<lambda>(f, node). intact node) entries"
| "intact (File data) = True"
| "intact Broken = False"

text \<open>
  A project \<open>/proj\<close> whose manifest lists the framework under \<open>dependencies\<close>, with a
  directory \<open>/proj/sub\<close> that has a manifest of its own and a directory \<open>/proj/sub/deep\<close>
  that has none. What \<open>require\<close> gives for the manifest of \<open>/proj/sub\<close> is a parameter.
\<close>

definition framework_manifest :: jsval where
  "framework_manifest =
     JObj [(''name'', JStr ''app''), (''dependencies'', JObj [(''react-vr'', JStr ''1.0.0'')])]"

definition dev_manifest :: jsval where
  "dev_manifest =
     JObj [(''name'', JStr ''tools''), (''devDependencies'', JObj [(''react-vr'', JStr ''1.0.0'')])]"

definition nested_fs :: fsnode where
  "nested_fs =
     Dir [(''proj'',
           Dir [(''package.json'', File ''app''),
                (''sub'', Dir [(''package.json'', File ''tools''), (''deep'', Dir [])])])]"

definition nested_env :: "error + jsval \<Rightarrow> env" where
  "nested_env sub =
     \<lparr>fs = nested_fs, cwd = [''proj'', ''sub'', ''deep''], rn_cli_location = None,
      require = (\<lambda>p. if p = [''proj'', ''package.json''] then Inr framework_manifest
                      else if p = [''proj'', ''sub'', ''package.json''] then sub
                      else Inl ENOENT),
      exit_code = (\<lambda>c. Some 0), mkdir_error = (\<lambda>p. None), writeFile_error = (\<lambda>p. None)\<rparr>"

text \<open>
  A project \<open>/proj\<close> with two component files, a client file, one HTML file whose
  contents are a parameter, the manifest and a directory of static assets; the run starts
  in \<open>/proj\<close>, and the codes with which the spawned processes close are a parameter.
\<close>

definition scenario_fs :: "string \<Rightarrow> fsnode" where
  "scenario_fs html =
     Dir [(''proj'',
           Dir [(''A.vr.js'', File ''a''), (''B.vr.js'', File ''b''), (''client.js'', File ''c''),
                (''index.html'', File html), (''package.json'', File ''app''),
                (''static_assets'', Dir [(''sky.jpg'', File ''j'')])])]"

definition scenario_env :: "string \<Rightarrow> (spawn_call \<Rightarrow> int option) \<Rightarrow> env" where
  "scenario_env html codes =
     \<lparr>fs = scenario_fs html, cwd = [''proj''], rn_cli_location = None,
      require = (\<lambda>p. if p = [''proj'', ''package.json''] then Inr framework_manifest
                      else Inl ENOENT),
      exit_code = codes, mkdir_error = (\<lambda>p. None), writeFile_error = (\<lambda>p. None)\<rparr>"

text \<open>
  Three more project trees: one that has been built before, one with a component file
  and the manifest only, and one with a file \<open>client.json\<close> listed before \<open>client.js\<close>.
\<close>

definition rebuilt_fs :: fsnode where
  "rebuilt_fs =
     Dir [(''proj'',
           Dir [(''A.vr.js'', File ''a''), (''build'', Dir [(''A.bundle.js'', File ''old'')]),
                (''client.json'', File ''c''), (''package.json'', File ''app'')])]"

definition bare_fs :: fsnode where
  "bare_fs =
     Dir [(''proj'', Dir [(''A.vr.js'', File ''a''), (''package.json'', File ''app'')])]"

definition json_fs :: fsnode where
  "json_fs =
     Dir [(''proj'',
           Dir [(''A.vr.js'', File ''a''), (''client.json'', File ''{}''), (''client.js'', File ''c''),
                (''package.json'', File ''app'')])]"

section \<open>The directory walk\<close>

lemma array_indexOf_ge: "- 1 \<le> array_indexOf xs x"
  by (induction xs) (auto simp: Let_def)

lemma array_indexOf_absent: "array_indexOf xs x = - 1 \<longleftrightarrow> x \<notin> set xs"
proof (induction xs)
  case Nil
  then show ?case by simp
next
  case (Cons y ys)
  with array_indexOf_ge [of ys x] show ?case by (auto simp: Let_def)
qed

lemma map_throw_Inr:
  "map_throw f xs = Inr rs \<Longrightarrow> r \<in> set rs \<Longrightarrow> \<exists>x \<in> set xs. f x = Inr r"
  by (induction xs arbitrary: rs) (auto split: sum.splits)

lemma map_throw_total:
  "(\<And>x. x \<in> set xs \<Longrightarrow> \<exists>y. f x = Inr y) \<Longrightarrow> \<exists>ys. map_throw f xs = Inr ys"
proof (induction xs)
  case Nil
  then show ?case by simp
next
  case (Cons x xs)
  then obtain y ys where "f x = Inr y" "map_throw f xs = Inr ys" by (meson list.set_intros)
  then show ?case by simp
qed

lemma set_foldl_reduce_step:
  "set (foldl reduce_step acc rs) = set acc \<union> (\<Union>r \<in> set rs. set (paths_of r))"
proof (induction rs arbitrary: acc)
  case Nil
  then show ?case by simp
next
  case (Cons r rs)
  then show ?case by (cases r) (auto simp: paths_of_def)
qed

text \<open>A path that the walk of a directory returns comes from the walk of a kept entry.\<close>

lemma walk_Dir_child:
  assumes "walkDirSync dir (Dir entries) exclude = Inr r" "p \<in> set (paths_of r)"
  obtains f node w where "(f, node) \<in> set entries" "f \<notin> set exclude"
    "walkDirSync (path_join dir f) node exclude = Inr w" "p \<in> set (paths_of w)"
proof -
  let ?kept = "filter (\<lambda>(f, node). array_indexOf exclude f = - 1) entries"
  from assms(1) obtain rs where
    rs: "map_throw (\<lambda>(f, node). walkDirSync (path_join dir f) node exclude) ?kept = Inr rs"
    and r: "r = Many (foldl reduce_step [] rs)"
    by (auto split: sum.splits)
  from assms(2) r obtain w where w: "w \<in> set rs" "p \<in> set (paths_of w)"
    by (auto simp: set_foldl_reduce_step paths_of_def)
  from map_throw_Inr [OF rs w(1)] obtain x where
    x: "x \<in> set ?kept" "(case x of (f, node) \<Rightarrow> walkDirSync (path_join dir f) node exclude) = Inr w"
    by blast
  obtain f node where "x = (f, node)" by (cases x)
  with x w(2) that show thesis by (auto simp: array_indexOf_absent)
qed

lemma walk_below:
  "walkDirSync dir node exclude = Inr r \<Longrightarrow> p \<in> set (paths_of r) \<Longrightarrow>
     \<exists>rel. p = dir @ rel \<and> set rel \<inter> set exclude = {}"
proof (induction dir node exclude arbitrary: r p rule: walkDirSync.induct)
  case (1 dir exclude)
  then show ?case by simp
next
  case (2 dir data exclude)
  then show ?case by (auto simp: paths_of_def)
next
  case (3 dir entries exclude)
  from "3.prems" obtain f node w where
    e: "(f, node) \<in> set entries" "f \<notin> set exclude"
    and sub: "walkDirSync (path_join dir f) node exclude = Inr w" "p \<in> set (paths_of w)"
    by (rule walk_Dir_child)
  from e have kept: "(f, node) \<in> set (filter (\<lambda>(f, node). array_indexOf exclude f = - 1) entries)"
    by (simp add: array_indexOf_absent)
  from "3.IH" [OF kept refl sub] obtain rel where
    "p = path_join dir f @ rel" "set rel \<inter> set exclude = {}" by blast
  with e(2) have "p = dir @ (f # rel) \<and> set (f # rel) \<inter> set exclude = {}"
    by (simp add: path_join_def)
  then show ?case by blast
qed

lemma filter_prune:
  "filter (\<lambda>(f, node). array_indexOf exclude f = - 1)
      (map (\<lambda>(f, node). (f, prune exclude node)) (filter (\<lambda>(f, node). f \<notin> set exclude) entries))
   = map (\<lambda>(f, node). (f, prune exclude node))
       (filter (\<lambda>(f, node). array_indexOf exclude f = - 1) entries)"
  by (induction entries) (auto simp: array_indexOf_absent)

lemma walk_prune: "walkDirSync dir (prune exclude node) exclude = walkDirSync dir node exclude"
proof (induction dir node exclude rule: walkDirSync.induct)
  case (3 dir entries exclude)
  have "map_throw (\<lambda>(f, node). walkDirSync (path_join dir f) node exclude)
          (map (\<lambda>(f, node). (f, prune exclude node))
             (filter (\<lambda>(f, node). array_indexOf exclude f = - 1) entries))
      = map_throw (\<lambda>(f, node). walkDirSync (path_join dir f) node exclude)
          (filter (\<lambda>(f, node). array_indexOf exclude f = - 1) entries)"
    using "3.IH"
  proof (induction entries)
    case Nil
    then show ?case by simp
  next
    case (Cons a entries)
    then show ?case by (cases a) (auto split: sum.splits)
  qed
  then show ?case by (simp add: filter_prune)
qed simp_all

lemma walk_intact: "intact node \<Longrightarrow> \<exists>r. walkDirSync dir node exclude = Inr r"
proof (induction dir node exclude rule: walkDirSync.induct)
  case (3 dir entries exclude)
  have "\<exists>ys. map_throw (\<lambda>(f, node). walkDirSync (path_join dir f) node exclude)
          (filter (\<lambda>(f, node). array_indexOf exclude f = - 1) entries) = Inr ys"
  proof (rule map_throw_total)
    fix x assume x: "x \<in> set (filter (\<lambda>(f, node). array_indexOf exclude f = - 1) entries)"
    obtain f node where fn: "x = (f, node)" by (cases x)
    with x "3.prems" have "intact node" by (auto simp: list_all_iff)
    from "3.IH" [OF x [unfolded fn] refl this] fn
    show "\<exists>y. (case x of (f, node) \<Rightarrow> walkDirSync (path_join dir f) node exclude) = Inr y"
      by simp
  qed
  then show ?case by auto
qed simp_all

text \<open>
  C4, as amended. Whatever the tree and the exclusion list, a path that the walk returns
  is the start directory followed by components none of which is an excluded name (the
  components of the start directory itself are not looked at). Excluded entries are not
  entered: the walk gives the same result, or raises the same error, on the tree from which
  every excluded entry has been removed, and it returns whenever that tree has no entry
  that \<open>fs.statSync\<close> cannot follow.
\<close>

theorem walk_skips_excluded:
  "(\<forall>r. walkDirSync dir node exclude = Inr r \<longrightarrow>
        (\<forall>p \<in> set (paths_of r). \<exists>rel. p = dir @ rel \<and> set rel \<inter> set exclude = {}))
   \<and> walkDirSync dir (prune exclude node) exclude = walkDirSync dir node exclude
   \<and> (intact (prune exclude node) \<longrightarrow> (\<exists>r. walkDirSync dir node exclude = Inr r))"
  using walk_below walk_prune walk_intact [of "prune exclude node" dir exclude] by metis

theorem walk_skips_excluded_witness:
  "walkDirSync [''srv'', ''build'']
     (Dir [(''index.html'', File ''''), (''build'', Dir [(''x'', Broken)]),
           (''src'', Dir [(''a.js'', File ''''), (''node_modules'', Dir [(''m.js'', File '''')])])])
     [''node_modules'', ''build'']
   = Inr (Many [[''srv'', ''build'', ''index.html''], [''srv'', ''build'', ''src'', ''a.js'']])
   \<and> (\<exists>rel. [''srv'', ''build'', ''src'', ''a.js''] = [''srv'', ''build''] @ rel
        \<and> set rel \<inter> set [''node_modules'', ''build''] = {})"
proof -
  let ?node = "Dir [(''index.html'', File ''''), (''build'', Dir [(''x'', Broken)]),
           (''src'', Dir [(''a.js'', File ''''), (''node_modules'', Dir [(''m.js'', File '''')])])]"
  let ?ex = "[''node_modules'', ''build'']"
  have "intact (prune ?ex ?node)" by simp
  with walk_skips_excluded [of "[''srv'', ''build'']" ?node ?ex]
  obtain r where r: "walkDirSync [''srv'', ''build''] ?node ?ex = Inr r" by blast
  have run: "walkDirSync [''srv'', ''build''] ?node ?ex
      = Inr (Many [[''srv'', ''build'', ''index.html''], [''srv'', ''build'', ''src'', ''a.js'']])"
    by (simp add: path_join_def)
  from walk_skips_excluded [of "[''srv'', ''build'']" ?node ?ex] run
  have "\<forall>p \<in> set (paths_of (Many [[''srv'', ''build'', ''index.html''],
                                  [''srv'', ''build'', ''src'', ''a.js'']])).
          \<exists>rel. p = [''srv'', ''build''] @ rel \<and> set rel \<inter> set ?ex = {}"
    by blast
  then have "\<exists>rel. [''srv'', ''build'', ''src'', ''a.js''] = [''srv'', ''build''] @ rel
               \<and> set rel \<inter> set ?ex = {}"
    by (simp add: paths_of_def)
  with run show ?thesis by blast
qed

text \<open>
  C4 as it is stated fails where the start directory has an excluded name among its own
  components: the walk of \<open>/srv/build\<close>, with \<open>build\<close> excluded, returns
  \<open>/srv/build/index.html\<close>.
\<close>

theorem walk_excluded_start_counterexample:
  "walkDirSync [''srv'', ''build''] (Dir [(''index.html'', File '''')]) [''build'']
     = Inr (Many [[''srv'', ''build'', ''index.html'']])
   \<and> ''build'' \<in> set [''srv'', ''build'', ''index.html'']
   \<and> ''build'' \<in> set [''build'']"
  by (simp add: path_join_def)

text \<open>
  C10. Called on a path that is a file, the walk returns that path itself, not an array;
  called on a directory, what it returns is an array of paths, each strictly below the
  directory.
\<close>

theorem walk_file_single:
  "(statSync tree dir = Inr StatFile \<longrightarrow> walk tree dir exclude = Inr (Single dir))
   \<and> (statSync tree dir = Inr StatDirectory \<longrightarrow>
        (\<forall>r. walk tree dir exclude = Inr r \<longrightarrow>
           (\<exists>ps. r = Many ps \<and> (\<forall>p \<in> set ps. \<exists>f rel. p = dir @ f # rel))))"
proof (intro conjI impI allI)
  assume "statSync tree dir = Inr StatFile"
  then show "walk tree dir exclude = Inr (Single dir)"
    by (auto simp: statSync_def walk_def split: option.splits fsnode.splits)
next
  fix r
  assume st: "statSync tree dir = Inr StatDirectory" and r: "walk tree dir exclude = Inr r"
  from st obtain entries where l: "fs_lookup tree dir = Some (Dir entries)"
    by (auto simp: statSync_def split: option.splits fsnode.splits)
  with r have w: "walkDirSync dir (Dir entries) exclude = Inr r" by (simp add: walk_def)
  then obtain ps where ps: "r = Many ps" by (auto split: sum.splits)
  have "\<exists>f rel. p = dir @ f # rel" if "p \<in> set ps" for p
  proof -
    from that ps have "p \<in> set (paths_of r)" by (simp add: paths_of_def)
    with w obtain f node w' where
      sub: "walkDirSync (path_join dir f) node exclude = Inr w'" "p \<in> set (paths_of w')"
      by (rule walk_Dir_child)
    from walk_below [OF sub] show ?thesis by (auto simp: path_join_def)
  qed
  with ps show "\<exists>ps. r = Many ps \<and> (\<forall>p \<in> set ps. \<exists>f rel. p = dir @ f # rel)" by blast
qed

theorem walk_file_single_witness:
  "walk nested_fs [''proj'', ''package.json''] [''package.json'']
     = Inr (Single [''proj'', ''package.json''])
   \<and> walk nested_fs [''proj''] []
     = Inr (Many [[''proj'', ''package.json''], [''proj'', ''sub'', ''package.json'']])
   \<and> (\<exists>f rel. [''proj'', ''sub'', ''package.json''] = [''proj''] @ f # rel)"
proof -
  have "statSync nested_fs [''proj'', ''package.json''] = Inr StatFile"
    by (simp add: statSync_def nested_fs_def)
  with walk_file_single [of nested_fs "[''proj'', ''package.json'']" "[''package.json'']"]
  have a: "walk nested_fs [''proj'', ''package.json''] [''package.json'']
     = Inr (Single [''proj'', ''package.json''])" by blast
  have d: "statSync nested_fs [''proj''] = Inr StatDirectory"
    by (simp add: statSync_def nested_fs_def)
  have b: "walk nested_fs [''proj''] []
     = Inr (Many [[''proj'', ''package.json''], [''proj'', ''sub'', ''package.json'']])"
    by (simp add: walk_def nested_fs_def path_join_def)
  from walk_file_single [of nested_fs "[''proj'']" "[]"] d b
  have "\<forall>p \<in> set [[''proj'', ''package.json''], [''proj'', ''sub'', ''package.json'']].
          \<exists>f rel. p = [''proj''] @ f # rel"
    by blast
  then have "\<exists>f rel. [''proj'', ''sub'', ''package.json''] = [''proj''] @ f # rel" by simp
  with a b show ?thesis by blast
qed

section \<open>Locating the project\<close>

lemma locate_step:
  "locate e d =
     (case hasPackage e d of
        Inl err \<Rightarrow> Raised err
      | Inr b \<Rightarrow> if b then Found d else if d = [] then NotFound else locate e (butlast d))"
proof -
  have "d = butlast d \<longleftrightarrow> d = []"
    by (cases d rule: rev_cases) auto
  then show ?thesis
    by (subst locate.simps) (auto simp: path_parent_def Let_def split: sum.splits bool.splits)
qed

lemma locate_find:
  "locate e start =
     (case find (\<lambda>d. hasPackage e d \<noteq> Inr False) (ancestors start) of
        None \<Rightarrow> NotFound
      | Some d \<Rightarrow> (case hasPackage e d of Inl err \<Rightarrow> Raised err | Inr b \<Rightarrow> Found d))"
proof (induction start rule: ancestors.induct)
  case (1 dir)
  show ?case
  proof (cases "dir = []")
    case True
    then show ?thesis
      by (subst locate_step) (auto split: sum.splits)
  next
    case False
    with 1 show ?thesis
      by (subst locate_step, subst ancestors.simps) (auto split: sum.splits)
  qed
qed

lemmas nested_simps =
  nested_env_def nested_fs_def framework_manifest_def dev_manifest_def hasPackage_def
  statSync_def path_join_def

lemma nested_ancestors:
  "ancestors [''proj'', ''sub'', ''deep'']
      = [[''proj'', ''sub'', ''deep''], [''proj'', ''sub''], [''proj''], []]"
  by simp

text \<open>
  C3, as amended. For every start directory the search ends. Going from the start
  directory up to the root, it stops at the first directory whose \<open>package.json\<close> exists
  and does not simply fail the test: it returns that directory when the manifest has a
  truthy \<open>dependencies['react-vr']\<close>, and the exception leaves the search when the manifest
  cannot be loaded. So the nearest qualifying directory is returned provided every nearer
  manifest that exists can be loaded. When every directory up to the root fails the test,
  the search reports that no project was found, and the process prints that message and
  exits with status 1.
\<close>

theorem locate_nearest:
  "locate e start =
     (case find (\<lambda>d. hasPackage e d \<noteq> Inr False) (ancestors start) of
        None \<Rightarrow> NotFound
      | Some d \<Rightarrow> (case hasPackage e d of Inl err \<Rightarrow> Raised err | Inr b \<Rightarrow> Found d))
   \<and> (locate e (cwd e) = NotFound \<longrightarrow>
        main e order = \<lparr>status = Some 1, console = [CouldNotFind], launched = [], written = []\<rparr>)"
  using locate_find [of e start] by (simp add: main_def)

theorem locate_nearest_witness:
  "locate (nested_env (Inr dev_manifest)) [''proj'', ''sub'', ''deep''] = Found [''proj'']
   \<and> locate (nested_env (Inr dev_manifest)) [''elsewhere''] = NotFound
   \<and> main (nested_env (Inr dev_manifest)\<lparr>cwd := [''elsewhere'']\<rparr>) []
       = \<lparr>status = Some 1, console = [CouldNotFind], launched = [], written = []\<rparr>"
proof -
  let ?e = "nested_env (Inr dev_manifest)"
  let ?e' = "?e\<lparr>cwd := [''elsewhere'']\<rparr>"
  have b: "ancestors [''elsewhere''] = [[''elsewhere''], []]" by simp
  have h: "hasPackage ?e [''proj'', ''sub'', ''deep''] = Inr False"
    "hasPackage ?e [''proj'', ''sub''] = Inr False"
    "hasPackage ?e [''proj''] = Inr True"
    "hasPackage ?e [''elsewhere''] = Inr False"
    "hasPackage ?e [] = Inr False"
    "hasPackage ?e' [''elsewhere''] = Inr False"
    "hasPackage ?e' [] = Inr False"
    by (simp_all add: nested_simps)
  have found: "locate ?e [''proj'', ''sub'', ''deep''] = Found [''proj'']"
    using locate_nearest [of ?e "[''proj'', ''sub'', ''deep'']" "[]"]
    unfolding nested_ancestors by (simp add: h)
  have none: "locate ?e [''elsewhere''] = NotFound"
    using locate_nearest [of ?e "[''elsewhere'']" "[]"]
    unfolding b by (simp add: h)
  have "locate ?e' (cwd ?e') = NotFound"
    using locate_nearest [of ?e' "[''elsewhere'']" "[]"]
    unfolding b by (simp add: h)
  with locate_nearest [of ?e' "[''elsewhere'']" "[]"]
  have "main ?e' [] = \<lparr>status = Some 1, console = [CouldNotFind], launched = [], written = []\<rparr>"
    by blast
  with found none show ?thesis by blast
qed

text \<open>
  C3 as it is stated fails where a nearer directory has a manifest that cannot be loaded:
  \<open>/proj\<close> qualifies and \<open>/proj/sub/deep\<close> has no manifest, but the manifest of \<open>/proj/sub\<close>
  makes \<open>require\<close> raise, and the search started in \<open>/proj/sub/deep\<close> ends with that
  exception: it neither returns \<open>/proj\<close> nor reports that no project was found.
\<close>

theorem locate_unloadable_counterexample:
  "hasPackage (nested_env (Inl SyntaxError)) [''proj''] = Inr True
   \<and> hasPackage (nested_env (Inl SyntaxError)) [''proj'', ''sub'', ''deep''] = Inr False
   \<and> hasPackage (nested_env (Inl SyntaxError)) [''proj'', ''sub''] = Inl SyntaxError
   \<and> locate (nested_env (Inl SyntaxError)) [''proj'', ''sub'', ''deep''] = Raised SyntaxError
   \<and> locate (nested_env (Inl SyntaxError)) [''proj'', ''sub'', ''deep''] \<noteq> Found [''proj'']
   \<and> locate (nested_env (Inl SyntaxError)) [''proj'', ''sub'', ''deep''] \<noteq> NotFound"
proof -
  have h: "hasPackage (nested_env (Inl SyntaxError)) [''proj''] = Inr True"
    "hasPackage (nested_env (Inl SyntaxError)) [''proj'', ''sub'', ''deep''] = Inr False"
    "hasPackage (nested_env (Inl SyntaxError)) [''proj'', ''sub''] = Inl SyntaxError"
    by (simp_all add: nested_simps)
  have "locate (nested_env (Inl SyntaxError)) [''proj'', ''sub'', ''deep''] = Raised SyntaxError"
    unfolding locate_find nested_ancestors by (simp add: h)
  with h show ?thesis by simp
qed

lemma get_prop_truthy:
  "get_prop v k = Inr w \<Longrightarrow> truthy w \<Longrightarrow> \<exists>kvs. v = JObj kvs \<and> map_of kvs k = Some w"
  by (cases v) (auto split: option.splits)

text \<open>
  C8, as amended. A directory passes the test only when its \<open>package.json\<close> exists and
  is an object whose \<open>dependencies\<close> property is an object with a truthy \<open>react-vr\<close>
  property. A manifest without a \<open>dependencies\<close> property, whatever it lists under
  \<open>devDependencies\<close> or any other key, does not pass, and neither does a directory whose
  \<open>package.json\<close> \<open>fs.statSync\<close> cannot find; from a directory that does not pass and is
  not the root, the search goes on at the parent. A \<open>package.json\<close> that exists but that
  \<open>require\<close> cannot load makes the test, and the search with it, raise.
\<close>

theorem hasPackage_dependencies_only:
  "(hasPackage e dir = Inr True \<longrightarrow>
      (\<exists>st. statSync (fs e) (path_join dir ''package.json'') = Inr st)
      \<and> (\<exists>props deps v. require e (path_join dir ''package.json'') = Inr (JObj props)
            \<and> map_of props ''dependencies'' = Some (JObj deps)
            \<and> map_of deps ''react-vr'' = Some v \<and> truthy v))
   \<and> (\<forall>st props. statSync (fs e) (path_join dir ''package.json'') = Inr st
          \<and> require e (path_join dir ''package.json'') = Inr (JObj props)
          \<and> map_of props ''dependencies'' = None \<longrightarrow> hasPackage e dir = Inr False)
   \<and> (\<forall>err. statSync (fs e) (path_join dir ''package.json'') = Inl err \<longrightarrow>
          hasPackage e dir = Inr False)
   \<and> (hasPackage e dir = Inr False \<and> dir \<noteq> [] \<longrightarrow> locate e dir = locate e (path_parent dir))
   \<and> (\<forall>st err. statSync (fs e) (path_join dir ''package.json'') = Inr st
          \<and> require e (path_join dir ''package.json'') = Inl err \<longrightarrow>
          hasPackage e dir = Inl err \<and> locate e dir = Raised err)"
proof (intro conjI impI allI)
  assume t: "hasPackage e dir = Inr True"
  then show "\<exists>st. statSync (fs e) (path_join dir ''package.json'') = Inr st"
    by (auto simp: hasPackage_def Let_def split: sum.splits)
  from t obtain pkg deps v where
    pkg: "require e (path_join dir ''package.json'') = Inr pkg" "truthy pkg"
    and deps: "get_prop pkg ''dependencies'' = Inr deps" "truthy deps"
    and v: "get_prop deps ''react-vr'' = Inr v" "truthy v"
    by (auto simp: hasPackage_def Let_def split: sum.splits if_splits)
  from get_prop_truthy [OF deps] obtain props where
    props: "pkg = JObj props" "map_of props ''dependencies'' = Some deps" by blast
  from get_prop_truthy [OF v] obtain ds where
    "deps = JObj ds" "map_of ds ''react-vr'' = Some v" by blast
  with pkg props v
  show "\<exists>props deps v. require e (path_join dir ''package.json'') = Inr (JObj props)
            \<and> map_of props ''dependencies'' = Some (JObj deps)
            \<and> map_of deps ''react-vr'' = Some v \<and> truthy v" by blast
next
  fix st props
  assume "statSync (fs e) (path_join dir ''package.json'') = Inr st
          \<and> require e (path_join dir ''package.json'') = Inr (JObj props)
          \<and> map_of props ''dependencies'' = None"
  then show "hasPackage e dir = Inr False"
    by (simp add: hasPackage_def Let_def)
next
  fix err
  assume "statSync (fs e) (path_join dir ''package.json'') = Inl err"
  then show "hasPackage e dir = Inr False"
    by (simp add: hasPackage_def Let_def)
next
  assume "hasPackage e dir = Inr False \<and> dir \<noteq> []"
  then show "locate e dir = locate e (path_parent dir)"
    by (subst locate_step) (simp add: path_parent_def)
next
  fix st err
  assume a: "statSync (fs e) (path_join dir ''package.json'') = Inr st
          \<and> require e (path_join dir ''package.json'') = Inl err"
  then show h: "hasPackage e dir = Inl err"
    by (simp add: hasPackage_def Let_def)
  then show "locate e dir = Raised err"
    by (subst locate_step) simp
qed

theorem hasPackage_dependencies_only_witness:
  "hasPackage (nested_env (Inr dev_manifest)) [''proj'', ''sub''] = Inr False
   \<and> hasPackage (nested_env (Inr dev_manifest)) [''proj'', ''sub'', ''deep''] = Inr False
   \<and> locate (nested_env (Inr dev_manifest)) [''proj'', ''sub'', ''deep'']
       = locate (nested_env (Inr dev_manifest)) [''proj'']
   \<and> hasPackage (nested_env (Inr dev_manifest)) [''proj''] = Inr True
   \<and> (\<exists>props deps v.
         require (nested_env (Inr dev_manifest)) (path_join [''proj''] ''package.json'')
           = Inr (JObj props)
         \<and> map_of props ''dependencies'' = Some (JObj deps)
         \<and> map_of deps ''react-vr'' = Some v \<and> truthy v)
   \<and> locate (nested_env (Inl EIO)) [''proj'', ''sub''] = Raised EIO"
proof -
  let ?e = "nested_env (Inr dev_manifest)"
  have t: "statSync (fs ?e) (path_join [''proj'', ''sub''] ''package.json'') = Inr StatFile"
    by (simp add: nested_env_def nested_fs_def statSync_def path_join_def)
  have r: "require ?e (path_join [''proj'', ''sub''] ''package.json'')
        = Inr (JObj [(''name'', JStr ''tools''),
                     (''devDependencies'', JObj [(''react-vr'', JStr ''1.0.0'')])])
      \<and> map_of [(''name'', JStr ''tools''),
                (''devDependencies'', JObj [(''react-vr'', JStr ''1.0.0'')])]
           ''dependencies'' = None"
    by (simp add: nested_env_def dev_manifest_def path_join_def)
  have s: "statSync (fs ?e) (path_join [''proj'', ''sub'', ''deep''] ''package.json'') = Inl ENOENT"
    by (simp add: nested_env_def nested_fs_def statSync_def path_join_def)
  from hasPackage_dependencies_only [of ?e "[''proj'', ''sub'']"] t r
  have a: "hasPackage ?e [''proj'', ''sub''] = Inr False" by blast
  from hasPackage_dependencies_only [of ?e "[''proj'', ''sub'', ''deep'']"] s
  have b: "hasPackage ?e [''proj'', ''sub'', ''deep''] = Inr False" by blast
  from hasPackage_dependencies_only [of ?e "[''proj'', ''sub'', ''deep'']"] b
  have "locate ?e [''proj'', ''sub'', ''deep'']
          = locate ?e (path_parent [''proj'', ''sub'', ''deep''])"
    by blast
  also from hasPackage_dependencies_only [of ?e "[''proj'', ''sub'']"] a
  have "locate ?e (path_parent [''proj'', ''sub'', ''deep''])
          = locate ?e (path_parent [''proj'', ''sub''])"
    by (simp add: path_parent_def)
  finally have c: "locate ?e [''proj'', ''sub'', ''deep''] = locate ?e [''proj'']"
    by (simp add: path_parent_def)
  have d: "hasPackage ?e [''proj''] = Inr True" by (simp add: nested_simps)
  with hasPackage_dependencies_only [of ?e "[''proj'']"]
  have x: "\<exists>props deps v. require ?e (path_join [''proj''] ''package.json'') = Inr (JObj props)
            \<and> map_of props ''dependencies'' = Some (JObj deps)
            \<and> map_of deps ''react-vr'' = Some v \<and> truthy v" by blast
  have "statSync (fs (nested_env (Inl EIO))) (path_join [''proj'', ''sub''] ''package.json'')
          = Inr StatFile
        \<and> require (nested_env (Inl EIO)) (path_join [''proj'', ''sub''] ''package.json'') = Inl EIO"
    by (simp add: nested_env_def nested_fs_def statSync_def path_join_def)
  with hasPackage_dependencies_only [of "nested_env (Inl EIO)" "[''proj'', ''sub'']"]
  have y: "locate (nested_env (Inl EIO)) [''proj'', ''sub''] = Raised EIO" by blast
  from a b c d x y show ?thesis by blast
qed

text \<open>
  C8 as it is stated fails for a \<open>package.json\<close> that is there but cannot be read:
  \<open>fs.statSync\<close> finds the manifest of \<open>/proj/sub\<close>, \<open>require\<close> raises on it, and the search
  started in \<open>/proj/sub\<close> ends with that exception instead of going on to \<open>/proj\<close>, which
  qualifies.
\<close>

theorem hasPackage_unreadable_counterexample:
  "statSync (fs (nested_env (Inl EACCES))) [''proj'', ''sub'', ''package.json''] = Inr StatFile
   \<and> require (nested_env (Inl EACCES)) [''proj'', ''sub'', ''package.json''] = Inl EACCES
   \<and> hasPackage (nested_env (Inl EACCES)) [''proj'', ''sub''] = Inl EACCES
   \<and> locate (nested_env (Inl EACCES)) [''proj'', ''sub''] = Raised EACCES
   \<and> locate (nested_env (Inl EACCES)) [''proj''] = Found [''proj'']"
proof -
  have h: "hasPackage (nested_env (Inl EACCES)) [''proj'', ''sub''] = Inl EACCES"
    "hasPackage (nested_env (Inl EACCES)) [''proj''] = Inr True"
    by (simp_all add: nested_simps)
  have "locate (nested_env (Inl EACCES)) [''proj'', ''sub''] = Raised EACCES"
    by (subst locate_step) (simp add: h)
  moreover have "locate (nested_env (Inl EACCES)) [''proj''] = Found [''proj'']"
    by (subst locate_step) (simp add: h)
  ultimately show ?thesis
    using h by (simp add: nested_env_def nested_fs_def statSync_def)
qed

section \<open>Invoking the bundler\<close>

text \<open>
  C5. Whatever code the bundler process closes with, the promise of \<open>buildScript\<close> is
  fulfilled when the code is exactly 0 and only then; with any other code, \<open>null\<close> included,
  it is rejected with that very code.
\<close>

theorem buildScript_exit_code:
  "settled (buildScript e root buildDir input output) =
     (if exit_code e (bundle_call e root buildDir input output) = Some 0 then Fulfilled
      else Rejected (Code (exit_code e (bundle_call e root buildDir input output))))"
  by (simp add: buildScript_def on_close_def resolve_def reject_def Let_def)

theorem buildScript_exit_code_witness:
  "settled (buildScript (nested_env (Inr dev_manifest)\<lparr>exit_code := (\<lambda>c. Some 127)\<rparr>)
       [''proj''] ([''proj''], ''build'') [''proj'', ''a.vr.js'']
       [''proj'', ''build'', ''a.bundle.js''])
     = Rejected (Code (Some 127))
   \<and> settled (buildScript (nested_env (Inr dev_manifest)\<lparr>exit_code := (\<lambda>c. Some 1)\<rparr>)
       [''proj''] ([''proj''], ''build'') [''proj'', ''a.vr.js'']
       [''proj'', ''build'', ''a.bundle.js''])
     = Rejected (Code (Some 1))
   \<and> settled (buildScript (nested_env (Inr dev_manifest)\<lparr>exit_code := (\<lambda>c. Some 0)\<rparr>)
       [''proj''] ([''proj''], ''build'') [''proj'', ''a.vr.js'']
       [''proj'', ''build'', ''a.bundle.js''])
     = Fulfilled"
  using
    buildScript_exit_code [of "nested_env (Inr dev_manifest)\<lparr>exit_code := (\<lambda>c. Some 127)\<rparr>"
       "[''proj'']" "([''proj''], ''build'')" "[''proj'', ''a.vr.js'']"
       "[''proj'', ''build'', ''a.bundle.js'']"]
    buildScript_exit_code [of "nested_env (Inr dev_manifest)\<lparr>exit_code := (\<lambda>c. Some 1)\<rparr>"
       "[''proj'']" "([''proj''], ''build'')" "[''proj'', ''a.vr.js'']"
       "[''proj'', ''build'', ''a.bundle.js'']"]
    buildScript_exit_code [of "nested_env (Inr dev_manifest)\<lparr>exit_code := (\<lambda>c. Some 0)\<rparr>"
       "[''proj'']" "([''proj''], ''build'')" "[''proj'', ''a.vr.js'']"
       "[''proj'', ''build'', ''a.bundle.js'']"]
  by simp

section \<open>Rewriting the HTML files\<close>


lemma prefix_drop_sublist: "prefix xs (drop k ys) \<Longrightarrow> sublist xs ys"
proof -
  assume "prefix xs (drop k ys)"
  then obtain zs where "drop k ys = xs @ zs" by (auto simp: prefix_def)
  then have "ys = take k ys @ xs @ zs" by (metis append_take_drop_id)
  then show ?thesis unfolding sublist_def by blast
qed

lemma match_bundle_None: "\<not> sublist ''.bundle'' s \<Longrightarrow> match_bundle (drop k s) = None"
  using prefix_drop_sublist [of "''.bundle''" k s] by (auto simp: match_bundle_def)

lemma match_plus_None: "\<not> sublist ''.bundle'' s \<Longrightarrow> match_plus n s = None"
  by (induction n) (simp_all add: match_bundle_None)

lemma match_all_None: "\<not> sublist ''.bundle'' s \<Longrightarrow> match_all s = []"
proof (induction s)
  case Nil
  then show ?case by simp
next
  case (Cons c s)
  then have "\<not> sublist ''.bundle'' s" by (auto simp: sublist_Cons_right)
  with Cons show ?case by (simp add: match_at_def match_plus_None)
qed

lemma prefix_blocked:
  "prefix xs (b @ q # r) \<Longrightarrow> q \<notin> set xs \<Longrightarrow> prefix xs b"
  by (auto simp: prefix_append prefix_Cons)

lemma takeWhile_blocked: "\<not> P q \<Longrightarrow> length (takeWhile P (a @ q # r)) \<le> length a"
  by (induction a) auto

lemma match_plus_blocked:
  assumes "\<not> sublist ''.bundle'' a" "\<not> not_quote q" "n \<le> length a"
  shows "match_plus n (a @ q # r) = None"
  using assms(3)
proof (induction n)
  case 0
  then show ?case by simp
next
  case (Suc n)
  have "\<not> prefix ''.bundle'' (drop (Suc n) a @ q # r)"
  proof
    assume "prefix ''.bundle'' (drop (Suc n) a @ q # r)"
    moreover from assms(2) have "q \<notin> set ''.bundle''" by (auto simp: not_quote_def)
    ultimately have "prefix ''.bundle'' (drop (Suc n) a)" by (rule prefix_blocked)
    with assms(1) show False using prefix_drop_sublist by blast
  qed
  with Suc show ?case by (simp add: match_bundle_def)
qed

lemma match_all_blocked:
  "\<not> sublist ''.bundle'' a \<Longrightarrow> \<not> not_quote q \<Longrightarrow> match_all (a @ q # r) = match_all r"
proof (induction a)
  case Nil
  then show ?case by (simp add: match_at_def)
next
  case (Cons c a)
  then have a: "\<not> sublist ''.bundle'' a" by (auto simp: sublist_Cons_right)
  have "match_at ((c # a) @ q # r) = None"
    unfolding match_at_def
    by (rule match_plus_blocked [OF Cons.prems takeWhile_blocked [of not_quote q, OF Cons.prems(2)]])
  with Cons.IH [OF a Cons.prems(2)] show ?case by simp
qed

lemma quote_not: "\<not> not_quote (CHR 0x22)"
  by (simp add: not_quote_def)

lemma match_at_foo:
  "match_at (''foo.bundle.js'' @ CHR 0x22 # post) = Some ''foo.bundle.js''"
  by (simp add: match_at_def not_quote_def eval_nat_numeral match_bundle_def match_rest_def)

lemma match_all_foo:
  assumes "\<not> sublist ''.bundle'' pre" "\<not> sublist ''.bundle'' post"
  shows "match_all (pre @ CHR 0x22 # ''foo.bundle.js'' @ CHR 0x22 # post) = [''foo.bundle.js'']"
proof -
  have "match_all (pre @ CHR 0x22 # ''foo.bundle.js'' @ CHR 0x22 # post)
      = match_all (''foo.bundle.js'' @ CHR 0x22 # post)"
    by (rule match_all_blocked [OF assms(1) quote_not])
  also have "\<dots> = ''foo.bundle.js'' # match_all (CHR 0x22 # post)"
    using match_at_foo [of post] by simp
  also have "match_all (CHR 0x22 # post) = match_all post"
    using match_all_blocked [of "[]" "CHR 0x22" post] quote_not by simp
  finally show ?thesis using match_all_None [OF assms(2)] by simp
qed

lemma string_indexOf_blocked:
  assumes "q \<notin> set t" "t \<noteq> []" "\<not> sublist t a" "prefix t r"
  shows "string_indexOf (a @ q # r) t = int (length a) + 1"
  using assms(3)
proof (induction a)
  case Nil
  from assms(1,2) have "\<not> prefix t (q # r)" by (cases t) auto
  moreover from assms(2,4) have "string_indexOf r t = 0" by (cases r) auto
  ultimately show ?case by simp
next
  case (Cons c a)
  then have a: "\<not> sublist t a" by (auto simp: sublist_Cons_right)
  have "\<not> prefix t ((c # a) @ q # r)"
  proof
    assume "prefix t ((c # a) @ q # r)"
    then have "prefix t (c # a)" using assms(1) by (rule prefix_blocked)
    with Cons.prems show False by (auto simp: sublist_Cons_right)
  qed
  with Cons.IH [OF a] show ?case by simp
qed

lemma updatedPath_foo: "updatedPath ''foo.bundle.js'' = ''/foo.bundle.js''"
  by (simp add: updatedPath_def basename_def path_sep_def)

lemma replace_foo:
  assumes "\<not> sublist ''.bundle'' pre"
  shows "string_replace (pre @ CHR 0x22 # ''foo.bundle.js'' @ CHR 0x22 # post)
           ''foo.bundle.js'' ''/foo.bundle.js''
         = pre @ CHR 0x22 # ''/foo.bundle.js'' @ CHR 0x22 # post"
proof -
  have "sublist ''.bundle'' ''foo.bundle.js''"
    unfolding sublist_def by (rule exI [of _ "''foo''"], rule exI [of _ "''.js''"]) simp
  with assms have n: "\<not> sublist ''foo.bundle.js'' pre"
    using sublist_order.order_trans by blast
  have i: "string_indexOf (pre @ CHR 0x22 # ''foo.bundle.js'' @ CHR 0x22 # post) ''foo.bundle.js''
        = int (length pre) + 1"
    by (rule string_indexOf_blocked [OF _ _ n]) simp_all
  show ?thesis
    unfolding string_replace_def i by (simp add: Let_def nat_add_distrib)
qed

lemma String_match_Some: "String_match s = Some ms \<Longrightarrow> ms \<noteq> []"
  by (auto simp: String_match_def split: list.splits)


lemma string_indexOf_ge: "- 1 \<le> string_indexOf s t"
  by (induction s) (auto simp: Let_def)




lemma no_reference_raises:
  assumes "readFile e file = Inr data" "\<not> sublist ''.bundle'' data"
  shows "replaceBundleExtensionsInHtml e file buildDir =
           \<lparr>spawned = [], wrote = [], settled = Pending, uncaught = Some TypeError\<rparr>"
  using assms(1) match_all_None [OF assms(2)]
  by (simp add: replaceBundleExtensionsInHtml_def String_match_def)





text \<open>
  C2 does not hold of the script: for contents without a match \<open>String.prototype.match\<close>
  gives \<open>null\<close>, reading \<open>bundlePaths.length\<close> raises inside the callback of \<open>fs.readFile\<close>,
  and nothing is written. Here the file is \<open>/proj/index.html\<close> with the contents
  \<open><html></html>\<close>.
\<close>

theorem rewrite_without_reference_raises:
  "String_match ''<html></html>'' = None
   \<and> replaceBundleExtensionsInHtml (scenario_env ''<html></html>'' (\<lambda>c. Some 0))
        [''proj'', ''index.html''] ([''proj''], ''build'')
      = \<lparr>spawned = [], wrote = [], settled = Pending, uncaught = Some TypeError\<rparr>"
proof -
  have n: "\<not> sublist ''.bundle'' ''<html></html>''"
    by (simp add: sublist_Cons_right)
  have r: "readFile (scenario_env ''<html></html>'' (\<lambda>c. Some 0)) [''proj'', ''index.html'']
             = Inr ''<html></html>''"
    by (simp add: readFile_def scenario_env_def scenario_fs_def)
  from match_all_None [OF n] no_reference_raises [OF r n] show ?thesis
    by (simp add: String_match_def)
qed

section \<open>The run as a whole\<close>

lemma promise_all_fulfilled:
  assumes "\<forall>i \<in> set pending. uncaught (ops ! i) = None \<and> settled (ops ! i) = Fulfilled"
    and "\<forall>i \<in> set pending. i \<noteq> k \<longrightarrow> wrote (ops ! i) = []"
  shows "promise_all ops pending order w =
           (if set pending \<subseteq> set order then AllFulfilled else Waiting,
            if k \<in> set pending \<and> k \<in> set order then w @ wrote (ops ! k) else w)"
  using assms
proof (induction order arbitrary: pending w)
  case Nil
  then show ?case by auto
next
  case (Cons i order)
  show ?case
  proof (cases "i \<in> set pending")
    case False
    with Cons.IH [OF Cons.prems, of w] show ?thesis by auto
  next
    case True
    have sub: "\<forall>j \<in> set (removeAll i pending). uncaught (ops ! j) = None \<and> settled (ops ! j) = Fulfilled"
      "\<forall>j \<in> set (removeAll i pending). j \<noteq> k \<longrightarrow> wrote (ops ! j) = []"
      using Cons.prems by auto
    from True Cons.prems have f: "uncaught (ops ! i) = None" "settled (ops ! i) = Fulfilled" by auto
    have s: "set (removeAll i pending) \<subseteq> set order \<longleftrightarrow> set pending \<subseteq> set (i # order)"
      by auto
    show ?thesis
    proof (cases "i = k")
      case True
      with \<open>i \<in> set pending\<close> f Cons.IH [OF sub, of "w @ wrote (ops ! i)"] s show ?thesis
        by simp
    next
      case False
      with \<open>i \<in> set pending\<close> Cons.prems(2) have "wrote (ops ! i) = []" by blast
      with \<open>i \<in> set pending\<close> False f Cons.IH [OF sub, of w] s show ?thesis
        by auto
    qed
  qed
qed

lemma promise_all_rejected:
  assumes "\<forall>i \<in> set pending. uncaught (ops ! i) = None \<and> settled (ops ! i) \<noteq> Pending"
    and "k \<in> set pending" "k \<in> set order" "settled (ops ! k) = Rejected r"
  shows "\<exists>r' w'. promise_all ops pending order w = (FirstRejected r', w')"
  using assms
proof (induction order arbitrary: pending w)
  case Nil
  then show ?case by simp
next
  case (Cons i order)
  show ?case
  proof (cases "i \<in> set pending")
    case False
    with Cons.prems have "k \<in> set order" by auto
    with False Cons.IH [OF Cons.prems(1,2) _ Cons.prems(4), of w] show ?thesis by simp
  next
    case True
    with Cons.prems(1) have u: "uncaught (ops ! i) = None" "settled (ops ! i) \<noteq> Pending" by auto
    show ?thesis
    proof (cases "settled (ops ! i)")
      case Pending
      with u show ?thesis by simp
    next
      case (Rejected r')
      with True u show ?thesis by simp
    next
      case Fulfilled
      with Cons.prems(4) have ne: "i \<noteq> k" by auto
      with Cons.prems have k: "k \<in> set (removeAll i pending)" "k \<in> set order" by auto
      have "\<forall>j \<in> set (removeAll i pending). uncaught (ops ! j) = None \<and> settled (ops ! j) \<noteq> Pending"
        using Cons.prems(1) by auto
      from Cons.IH [OF this k Cons.prems(4), of "w @ wrote (ops ! i)"] True u Fulfilled
      show ?thesis by simp
    qed
  qed
qed

lemma scenario_walk:
  "walk (scenario_fs html) [''proj''] exclude_names =
     Inr (Many [[''proj'', ''A.vr.js''], [''proj'', ''B.vr.js''], [''proj'', ''client.js''],
                [''proj'', ''index.html'']])"
  by (simp add: walk_def scenario_fs_def exclude_names_def path_join_def)

lemma scenario_locate: "locate (scenario_env html codes) [''proj''] = Found [''proj'']"
  by (subst locate.simps)
    (simp add: hasPackage_def scenario_env_def scenario_fs_def statSync_def path_join_def
      framework_manifest_def)

lemma scenario_make_build_dir:
  "make_build_dir (scenario_env html codes) ([''proj''], ''build'') = ([], Fulfilled)"
  by (simp add: make_build_dir_def scenario_env_def scenario_fs_def statSync_def resolve_def)

lemma scenario_classify:
  "find (\<lambda>f. string_indexOf (path_str f) ''client.js'' \<noteq> - 1)
     [[''proj'', ''A.vr.js''], [''proj'', ''B.vr.js''], [''proj'', ''client.js''],
      [''proj'', ''index.html'']] = Some [''proj'', ''client.js'']"
  "filter (\<lambda>file. suffix ''.vr.js'' (path_str file))
     [[''proj'', ''A.vr.js''], [''proj'', ''B.vr.js''], [''proj'', ''client.js''],
      [''proj'', ''index.html'']] = [[''proj'', ''A.vr.js''], [''proj'', ''B.vr.js'']]"
  "filter (\<lambda>file. extname (path_str file) = ''.html'')
     [[''proj'', ''A.vr.js''], [''proj'', ''B.vr.js''], [''proj'', ''client.js''],
      [''proj'', ''index.html'']] = [[''proj'', ''index.html'']]"
  "basename_ext (path_str [''proj'', ''A.vr.js'']) ''.vr.js'' = ''A''"
  "basename_ext (path_str [''proj'', ''B.vr.js'']) ''.vr.js'' = ''B''"
  by (simp_all add: path_sep_def suffix_to_prefix extname_def basename_def basename_ext_def Let_def)

lemma launched_report [simp]: "launched (report j buildDir calls w) = calls"
  by (cases j) (simp_all add: report_def)

lemma html_spawned [simp]: "spawned (replaceBundleExtensionsInHtml e file buildDir) = []"
  by (simp add: replaceBundleExtensionsInHtml_def Let_def split: sum.splits option.splits)

lemma buildScript_fields [simp]:
  "spawned (buildScript e root buildDir input output) = [bundle_call e root buildDir input output]"
  "wrote (buildScript e root buildDir input output) = []"
  "uncaught (buildScript e root buildDir input output) = None"
  "settled (buildScript e root buildDir input output) \<noteq> Pending"
  by (simp_all add: buildScript_def Let_def on_close_def resolve_def reject_def)

lemma copyDirRecursive_fields [simp]:
  "spawned (copyDirRecursive e root dir dest) = [copy_call root dir dest]"
  "wrote (copyDirRecursive e root dir dest) = []"
  "uncaught (copyDirRecursive e root dir dest) = None"
  "settled (copyDirRecursive e root dir dest) \<noteq> Pending"
  "settled (copyDirRecursive e root dir dest) =
     (if exit_code e (copy_call root dir dest) = Some 0 then Fulfilled
      else Rejected (Code (exit_code e (copy_call root dir dest))))"
  by (simp_all add: copyDirRecursive_def Let_def on_close_def resolve_def reject_def)

lemma buildScript_settled:
  "settled (buildScript e root buildDir input output) =
     (if exit_code e (bundle_call e root buildDir input output) = Some 0 then Fulfilled
      else Rejected (Code (exit_code e (bundle_call e root buildDir input output))))"
  by (simp add: buildScript_def on_close_def resolve_def reject_def Let_def)

lemma build_client:
  assumes "walk (fs e) projectDir exclude_names = Inr (Many contents)"
    and "find (\<lambda>f. string_indexOf (path_str f) ''client.js'' \<noteq> - 1) contents = Some client"
    and "filter (\<lambda>file. suffix ''.vr.js'' (path_str file)) contents = vrs"
    and "filter (\<lambda>file. extname (path_str file) = ''.html'') contents = htmls"
    and "ops = map (\<lambda>file. buildScript e projectDir buildDir file
                        (build_path buildDir
                           [basename_ext (path_str file) ''.vr.js'' @ ''.bundle.js''])) vrs
             @ map (\<lambda>file. replaceBundleExtensionsInHtml e file buildDir) htmls
             @ [buildScript e projectDir buildDir client (build_path buildDir [''client.bundle.js'']),
                copyDirRecursive e projectDir (projectDir @ [staticAssetsDir])
                  (build_path buildDir [staticAssetsDir])]"
  shows "build e projectDir buildDir order =
           report (fst (promise_all ops [0..<length ops] order [])) buildDir
             (concat (map spawned ops)) (snd (promise_all ops [0..<length ops] order []))"
  unfolding build_def assms(1) using assms(2-5) by (simp add: Let_def)

lemma scenario_ops:
  "map (\<lambda>file. buildScript e [''proj''] ([''proj''], ''build'') file
                        (build_path ([''proj''], ''build'')
                           [basename_ext (path_str file) ''.vr.js'' @ ''.bundle.js'']))
       [[''proj'', ''A.vr.js''], [''proj'', ''B.vr.js'']]
     @ map (\<lambda>file. replaceBundleExtensionsInHtml e file ([''proj''], ''build''))
         [[''proj'', ''index.html'']]
     @ [buildScript e [''proj''] ([''proj''], ''build'') [''proj'', ''client.js'']
          (build_path ([''proj''], ''build'') [''client.bundle.js'']),
        copyDirRecursive e [''proj''] ([''proj''] @ [staticAssetsDir])
          (build_path ([''proj''], ''build'') [staticAssetsDir])]
   = [buildScript e [''proj''] ([''proj''], ''build'') [''proj'', ''A.vr.js'']
        [''proj'', ''build'', ''A.bundle.js''],
      buildScript e [''proj''] ([''proj''], ''build'') [''proj'', ''B.vr.js'']
        [''proj'', ''build'', ''B.bundle.js''],
      replaceBundleExtensionsInHtml e [''proj'', ''index.html''] ([''proj''], ''build''),
      buildScript e [''proj''] ([''proj''], ''build'') [''proj'', ''client.js'']
        [''proj'', ''build'', ''client.bundle.js''],
      copyDirRecursive e [''proj''] [''proj'', ''static_assets'']
        [''proj'', ''build'', ''static_assets'']]"
  by (simp add: scenario_classify(4,5) staticAssetsDir_def del: path_str.simps)

lemma scenario_main:
  fixes html codes
  defines "e \<equiv> scenario_env html codes"
  defines "ops \<equiv>
     [buildScript e [''proj''] ([''proj''], ''build'') [''proj'', ''A.vr.js'']
        [''proj'', ''build'', ''A.bundle.js''],
      buildScript e [''proj''] ([''proj''], ''build'') [''proj'', ''B.vr.js'']
        [''proj'', ''build'', ''B.bundle.js''],
      replaceBundleExtensionsInHtml e [''proj'', ''index.html''] ([''proj''], ''build''),
      buildScript e [''proj''] ([''proj''], ''build'') [''proj'', ''client.js'']
        [''proj'', ''build'', ''client.bundle.js''],
      copyDirRecursive e [''proj''] [''proj'', ''static_assets'']
        [''proj'', ''build'', ''static_assets'']]"
  shows "main e order =
     report (fst (promise_all ops [0, 1, 2, 3, 4] order [])) ([''proj''], ''build'')
       [bundle_call e [''proj''] ([''proj''], ''build'') [''proj'', ''A.vr.js'']
          [''proj'', ''build'', ''A.bundle.js''],
        bundle_call e [''proj''] ([''proj''], ''build'') [''proj'', ''B.vr.js'']
          [''proj'', ''build'', ''B.bundle.js''],
        bundle_call e [''proj''] ([''proj''], ''build'') [''proj'', ''client.js'']
          [''proj'', ''build'', ''client.bundle.js''],
        copy_call [''proj''] [''proj'', ''static_assets''] [''proj'', ''build'', ''static_assets'']]
       (snd (promise_all ops [0, 1, 2, 3, 4] order []))"
proof -
  have c: "cwd e = [''proj'']" and f: "fs e = scenario_fs html"
    by (simp_all add: scenario_env_def e_def)
  have m: "main e order = build e [''proj''] ([''proj''], ''build'') order"
    unfolding main_def Let_def c unfolding e_def scenario_locate scenario_make_build_dir by simp
  have w: "walk (fs e) [''proj''] exclude_names =
     Inr (Many [[''proj'', ''A.vr.js''], [''proj'', ''B.vr.js''], [''proj'', ''client.js''],
                [''proj'', ''index.html'']])"
    unfolding f by (rule scenario_walk)
  have l: "[0..<length ops] = [0, 1, 2, 3, 4]"
    by (simp add: ops_def upt_rec)
  have s: "concat (map spawned ops) =
       [bundle_call e [''proj''] ([''proj''], ''build'') [''proj'', ''A.vr.js'']
          [''proj'', ''build'', ''A.bundle.js''],
        bundle_call e [''proj''] ([''proj''], ''build'') [''proj'', ''B.vr.js'']
          [''proj'', ''build'', ''B.bundle.js''],
        bundle_call e [''proj''] ([''proj''], ''build'') [''proj'', ''client.js'']
          [''proj'', ''build'', ''client.bundle.js''],
        copy_call [''proj''] [''proj'', ''static_assets''] [''proj'', ''build'', ''static_assets'']]"
    by (simp add: ops_def)
  have "build e [''proj''] ([''proj''], ''build'') order =
          report (fst (promise_all ops [0..<length ops] order [])) ([''proj''], ''build'')
            (concat (map spawned ops)) (snd (promise_all ops [0..<length ops] order []))"
    by (rule build_client [OF w scenario_classify(1,2,3)])
      (simp only: scenario_ops ops_def)
  then show ?thesis unfolding m l s .
qed

lemma scenario_html:
  assumes "String_match html = Some ms"
  shows "replaceBundleExtensionsInHtml (scenario_env html codes) [''proj'', ''index.html'']
           ([''proj''], ''build'') =
         \<lparr>spawned = [],
          wrote = [([''proj'', ''build'', ''index.html''],
                    foldl (\<lambda>d p. string_replace d p (updatedPath p)) html ms)],
          settled = Fulfilled, uncaught = None\<rparr>"
proof -
  have r: "readFile (scenario_env html codes) [''proj'', ''index.html''] = Inr html"
    by (simp add: readFile_def scenario_env_def scenario_fs_def)
  have b: "build_path ([''proj''], ''build'') [basename (path_str [''proj'', ''index.html''])]
             = [''proj'', ''build'', ''index.html'']"
    by (simp add: basename_def path_sep_def)
  have w: "writeFile_error (scenario_env html codes) p = None" for p
    by (simp add: scenario_env_def)
  show ?thesis
    using assms String_match_Some [OF assms]
    unfolding replaceBundleExtensionsInHtml_def r b Let_def
    by (simp add: w on_written_def resolve_def)
qed

text \<open>
  C1. The project \<open>/proj\<close> holds the component files \<open>A.vr.js\<close> and \<open>B.vr.js\<close>, a file
  \<open>client.js\<close>, an \<open>index.html\<close> with a bundle reference and a directory \<open>static_assets\<close>,
  and the run starts there. Whatever the order in which the five operations complete:
  when the three bundlers and the copy close with code 0, the run has spawned the bundlers
  with the outputs \<open>build/A.bundle.js\<close>, \<open>build/B.bundle.js\<close> and \<open>build/client.bundle.js\<close>
  and the copy of \<open>static_assets\<close> to \<open>build/static_assets\<close>, has written the rewritten
  \<open>build/index.html\<close>, prints the success message and ends with status 0; when a bundler
  closes with any other code, the run prints a failure message and exits with status 1.
\<close>

theorem orchestrator_scenario:
  "String_match html = Some ms \<and> {0, 1, 2, 3, 4} \<subseteq> set order \<longrightarrow>
     (let e = scenario_env html codes;
          buildDir = ([''proj''], ''build'');
          bundleA = bundle_call e [''proj''] buildDir [''proj'', ''A.vr.js'']
                      [''proj'', ''build'', ''A.bundle.js''];
          bundleB = bundle_call e [''proj''] buildDir [''proj'', ''B.vr.js'']
                      [''proj'', ''build'', ''B.bundle.js''];
          bundleClient = bundle_call e [''proj''] buildDir [''proj'', ''client.js'']
                      [''proj'', ''build'', ''client.bundle.js''];
          copy = copy_call [''proj''] [''proj'', ''static_assets'']
                      [''proj'', ''build'', ''static_assets'']
      in (codes bundleA = Some 0 \<and> codes bundleB = Some 0 \<and> codes bundleClient = Some 0
            \<and> codes copy = Some 0 \<longrightarrow>
          main e order =
            \<lparr>status = Some 0, console = [Success [''proj'', ''build'']],
             launched = [bundleA, bundleB, bundleClient, copy],
             written = [([''proj'', ''build'', ''index.html''],
                         foldl (\<lambda>d p. string_replace d p (updatedPath p)) html ms)]\<rparr>)
       \<and> (codes bundleA \<noteq> Some 0 \<or> codes bundleB \<noteq> Some 0 \<or> codes bundleClient \<noteq> Some 0 \<longrightarrow>
          status (main e order) = Some 1
          \<and> (\<exists>r. console (main e order) = [Failure r])
          \<and> launched (main e order) = [bundleA, bundleB, bundleClient, copy]))"
proof (intro impI, elim conjE)
  assume ms: "String_match html = Some ms" and ord: "{0, 1, 2, 3, 4} \<subseteq> set order"
  define e where "e = scenario_env html codes"
  define bundleA where "bundleA = bundle_call e [''proj''] ([''proj''], ''build'') [''proj'', ''A.vr.js'']
                      [''proj'', ''build'', ''A.bundle.js'']"
  define bundleB where "bundleB = bundle_call e [''proj''] ([''proj''], ''build'') [''proj'', ''B.vr.js'']
                      [''proj'', ''build'', ''B.bundle.js'']"
  define bundleClient where "bundleClient = bundle_call e [''proj''] ([''proj''], ''build'')
                      [''proj'', ''client.js''] [''proj'', ''build'', ''client.bundle.js'']"
  define copy where "copy = copy_call [''proj''] [''proj'', ''static_assets'']
                      [''proj'', ''build'', ''static_assets'']"
  define ops where "ops =
     [buildScript e [''proj''] ([''proj''], ''build'') [''proj'', ''A.vr.js'']
        [''proj'', ''build'', ''A.bundle.js''],
      buildScript e [''proj''] ([''proj''], ''build'') [''proj'', ''B.vr.js'']
        [''proj'', ''build'', ''B.bundle.js''],
      replaceBundleExtensionsInHtml e [''proj'', ''index.html''] ([''proj''], ''build''),
      buildScript e [''proj''] ([''proj''], ''build'') [''proj'', ''client.js'']
        [''proj'', ''build'', ''client.bundle.js''],
      copyDirRecursive e [''proj''] [''proj'', ''static_assets'']
        [''proj'', ''build'', ''static_assets'']]"
  have ec: "exit_code e = codes" by (simp add: e_def scenario_env_def)
  have m: "main e order =
     report (fst (promise_all ops [0, 1, 2, 3, 4] order [])) ([''proj''], ''build'')
       [bundleA, bundleB, bundleClient, copy] (snd (promise_all ops [0, 1, 2, 3, 4] order []))"
    unfolding e_def ops_def bundleA_def bundleB_def bundleClient_def copy_def
    by (rule scenario_main)
  have h: "ops ! 2 = \<lparr>spawned = [],
          wrote = [([''proj'', ''build'', ''index.html''],
                    foldl (\<lambda>d p. string_replace d p (updatedPath p)) html ms)],
          settled = Fulfilled, uncaught = None\<rparr>"
    unfolding ops_def e_def using scenario_html [OF ms, of codes] by simp
  have nth: "ops ! 0 = buildScript e [''proj''] ([''proj''], ''build'') [''proj'', ''A.vr.js'']
        [''proj'', ''build'', ''A.bundle.js'']"
    "ops ! 1 = buildScript e [''proj''] ([''proj''], ''build'') [''proj'', ''B.vr.js'']
        [''proj'', ''build'', ''B.bundle.js'']"
    "ops ! 3 = buildScript e [''proj''] ([''proj''], ''build'') [''proj'', ''client.js'']
        [''proj'', ''build'', ''client.bundle.js'']"
    "ops ! 4 = copyDirRecursive e [''proj''] [''proj'', ''static_assets'']
        [''proj'', ''build'', ''static_assets'']"
    by (simp_all add: ops_def)
  note nth = nth nth(2) [unfolded One_nat_def]
  have st: "settled (ops ! 0) = (if codes bundleA = Some 0 then Fulfilled else Rejected (Code (codes bundleA)))"
    "settled (ops ! 1) = (if codes bundleB = Some 0 then Fulfilled else Rejected (Code (codes bundleB)))"
    "settled (ops ! 3) = (if codes bundleClient = Some 0 then Fulfilled else Rejected (Code (codes bundleClient)))"
    "settled (ops ! 4) = (if codes copy = Some 0 then Fulfilled else Rejected (Code (codes copy)))"
    unfolding nth by (simp_all add: buildScript_settled ec bundleA_def bundleB_def bundleClient_def copy_def)
  note st = st st(2) [unfolded One_nat_def]
  have un: "\<forall>i \<in> set [0, 1, 2, 3, 4]. uncaught (ops ! i) = None \<and> settled (ops ! i) \<noteq> Pending"
    using h by (simp add: nth)
  have wr: "\<forall>i \<in> set [0, 1, 2, 3, 4]. i \<noteq> 2 \<longrightarrow> wrote (ops ! i) = []"
    by (simp add: nth)
  have good: "main e order =
            \<lparr>status = Some 0, console = [Success [''proj'', ''build'']],
             launched = [bundleA, bundleB, bundleClient, copy],
             written = [([''proj'', ''build'', ''index.html''],
                         foldl (\<lambda>d p. string_replace d p (updatedPath p)) html ms)]\<rparr>"
    if "codes bundleA = Some 0 \<and> codes bundleB = Some 0 \<and> codes bundleClient = Some 0
            \<and> codes copy = Some 0"
  proof -
    from that st h un have "\<forall>i \<in> set [0, 1, 2, 3, 4]. uncaught (ops ! i) = None \<and> settled (ops ! i) = Fulfilled"
      by simp
    from promise_all_fulfilled [OF this wr, of order "[]"] ord
    have "promise_all ops [0, 1, 2, 3, 4] order [] = (AllFulfilled, wrote (ops ! 2))"
      by simp
    then show ?thesis unfolding m by (simp add: report_def h)
  qed
  have bad: "status (main e order) = Some 1
          \<and> (\<exists>r. console (main e order) = [Failure r])
          \<and> launched (main e order) = [bundleA, bundleB, bundleClient, copy]"
    if "codes bundleA \<noteq> Some 0 \<or> codes bundleB \<noteq> Some 0 \<or> codes bundleClient \<noteq> Some 0"
  proof -
    from that st obtain k r where k: "k \<in> set [0, 1, 2, 3, 4]" "settled (ops ! k) = Rejected r"
      by (metis list.set_intros(1,2))
    with ord have "k \<in> set order" by auto
    from promise_all_rejected [OF un k(1) this k(2), of "[]"]
    obtain r' w' where "promise_all ops [0, 1, 2, 3, 4] order [] = (FirstRejected r', w')" by blast
    then show ?thesis unfolding m by (simp add: report_def)
  qed
  from good bad show "let e = scenario_env html codes;
          buildDir = ([''proj''], ''build'');
          bundleA = bundle_call e [''proj''] buildDir [''proj'', ''A.vr.js'']
                      [''proj'', ''build'', ''A.bundle.js''];
          bundleB = bundle_call e [''proj''] buildDir [''proj'', ''B.vr.js'']
                      [''proj'', ''build'', ''B.bundle.js''];
          bundleClient = bundle_call e [''proj''] buildDir [''proj'', ''client.js'']
                      [''proj'', ''build'', ''client.bundle.js''];
          copy = copy_call [''proj''] [''proj'', ''static_assets'']
                      [''proj'', ''build'', ''static_assets'']
      in (codes bundleA = Some 0 \<and> codes bundleB = Some 0 \<and> codes bundleClient = Some 0
            \<and> codes copy = Some 0 \<longrightarrow>
          main e order =
            \<lparr>status = Some 0, console = [Success [''proj'', ''build'']],
             launched = [bundleA, bundleB, bundleClient, copy],
             written = [([''proj'', ''build'', ''index.html''],
                         foldl (\<lambda>d p. string_replace d p (updatedPath p)) html ms)]\<rparr>)
       \<and> (codes bundleA \<noteq> Some 0 \<or> codes bundleB \<noteq> Some 0 \<or> codes bundleClient \<noteq> Some 0 \<longrightarrow>
          status (main e order) = Some 1
          \<and> (\<exists>r. console (main e order) = [Failure r])
          \<and> launched (main e order) = [bundleA, bundleB, bundleClient, copy])"
    unfolding Let_def e_def bundleA_def bundleB_def bundleClient_def copy_def by blast
qed

lemma string_indexOf_sublist: "string_indexOf s t \<noteq> - 1 \<longleftrightarrow> sublist t s"
proof (induction s)
  case Nil
  then show ?case by simp
next
  case (Cons c s)
  with string_indexOf_ge [of s t] show ?case
    by (auto simp: sublist_Cons_right Let_def)
qed

lemma path_str_snoc: "path_str (dir @ [f]) = concat (map (\<lambda>d. path_sep @ d) dir) @ path_sep @ f"
  by (cases dir) simp_all

lemma main_found:
  assumes "locate e (cwd e) = Found projectDir"
  shows "main e order =
           (case make_build_dir e (cwd e, ''build'') of
              (msgs, Rejected r) \<Rightarrow> failed r msgs []
            | (msgs, Fulfilled) \<Rightarrow> build e projectDir (cwd e, ''build'') order
            | (msgs, Pending) \<Rightarrow> \<lparr>status = None, console = msgs, launched = [], written = []\<rparr>)"
  using assms by (simp add: main_def Let_def)

text \<open>
  C7. Once the project is located: when the output directory exists as a directory, the
  first promise is fulfilled without calling \<open>fs.mkdir\<close> and the run goes on to the
  build, so running again does not fail at this step; when it does not exist and \<open>fs.mkdir\<close>
  succeeds the run goes on as well; when \<open>fs.mkdir\<close> fails the run prints that the
  directory could not be created, then the failure message, and exits with status 1.
\<close>

theorem build_dir_idempotent:
  "locate e (cwd e) = Found projectDir \<longrightarrow>
     (statSync (fs e) (build_path (cwd e, ''build'') []) = Inr StatDirectory \<longrightarrow>
        make_build_dir e (cwd e, ''build'') = ([], Fulfilled)
        \<and> main e order = build e projectDir (cwd e, ''build'') order)
   \<and> (statSync (fs e) (build_path (cwd e, ''build'') []) \<noteq> Inr StatDirectory
        \<and> mkdir_error e (build_path (cwd e, ''build'') []) = None \<longrightarrow>
        main e order = build e projectDir (cwd e, ''build'') order)
   \<and> (\<forall>err. statSync (fs e) (build_path (cwd e, ''build'') []) \<noteq> Inr StatDirectory
        \<and> mkdir_error e (build_path (cwd e, ''build'') []) = Some err \<longrightarrow>
        main e order =
          \<lparr>status = Some 1, console = [FailedToCreate ''build'', Failure (Code (Some 1))],
           launched = [], written = []\<rparr>)"
proof (intro impI conjI allI, goal_cases)
  case 1
  then show ?case by (simp add: make_build_dir_def isDirectory_def resolve_def)
next
  case 2
  then show ?case
    by (simp add: main_found make_build_dir_def isDirectory_def resolve_def)
next
  case 3
  then have "make_build_dir e (cwd e, ''build'') = ([], Fulfilled)"
    by (auto simp: make_build_dir_def isDirectory_def resolve_def split: sum.splits)
  with 3 show ?case by (simp add: main_found)
next
  case (4 err)
  then have "make_build_dir e (cwd e, ''build'')
      = ([FailedToCreate ''build''], Rejected (Code (Some 1)))"
    by (auto simp: make_build_dir_def isDirectory_def reject_def split: sum.splits)
  with 4 show ?case by (simp add: main_found failed_def)
qed

lemma locate_proj:
  assumes "cwd e = [''proj'']" "fs_lookup (fs e) [''proj'', ''package.json''] = Some (File d)"
    "require e [''proj'', ''package.json''] = Inr framework_manifest"
  shows "locate e (cwd e) = Found [''proj'']"
  unfolding assms(1)
  by (subst locate.simps)
    (simp add: hasPackage_def statSync_def path_join_def assms framework_manifest_def)

theorem build_dir_idempotent_witness:
  "make_build_dir (scenario_env [] (\<lambda>c. Some 0)\<lparr>fs := rebuilt_fs\<rparr>) ([''proj''], ''build'')
     = ([], Fulfilled)
   \<and> main (scenario_env [] (\<lambda>c. Some 0)\<lparr>fs := bare_fs, mkdir_error := (\<lambda>p. Some EACCES)\<rparr>) []
     = \<lparr>status = Some 1, console = [FailedToCreate ''build'', Failure (Code (Some 1))],
        launched = [], written = []\<rparr>"
proof -
  let ?e = "scenario_env [] (\<lambda>c. Some 0)\<lparr>fs := rebuilt_fs\<rparr>"
  let ?e' = "scenario_env [] (\<lambda>c. Some 0)\<lparr>fs := bare_fs, mkdir_error := (\<lambda>p. Some EACCES)\<rparr>"
  have c: "cwd ?e = [''proj'']" "cwd ?e' = [''proj'']" by (simp_all add: scenario_env_def)
  have l: "locate ?e (cwd ?e) = Found [''proj'']"
    by (rule locate_proj) (simp_all add: scenario_env_def rebuilt_fs_def)
  have l': "locate ?e' (cwd ?e') = Found [''proj'']"
    by (rule locate_proj) (simp_all add: scenario_env_def bare_fs_def)
  have s: "statSync (fs ?e) (build_path (cwd ?e, ''build'') []) = Inr StatDirectory"
    by (simp add: scenario_env_def rebuilt_fs_def statSync_def)
  have s': "statSync (fs ?e') (build_path (cwd ?e', ''build'') []) \<noteq> Inr StatDirectory
      \<and> mkdir_error ?e' (build_path (cwd ?e', ''build'') []) = Some EACCES"
    by (simp add: scenario_env_def bare_fs_def statSync_def)
  from build_dir_idempotent [of ?e "[''proj'']" "[]"] l s
  have "make_build_dir ?e (cwd ?e, ''build'') = ([], Fulfilled)" by blast
  moreover from build_dir_idempotent [of ?e' "[''proj'']" "[]"] l' s'
  have "main ?e' [] = \<lparr>status = Some 1, console = [FailedToCreate ''build'', Failure (Code (Some 1))],
        launched = [], written = []\<rparr>" by blast
  ultimately show ?thesis unfolding c by blast
qed

lemma build_no_client:
  assumes "walk (fs e) projectDir exclude_names = Inr (Many contents)"
    and "find (\<lambda>f. string_indexOf (path_str f) ''client.js'' \<noteq> - 1) contents = None"
  shows "build e projectDir buildDir order =
           \<lparr>status = Some 1, console = [Failure (Err TypeError)],
            launched = map (\<lambda>file. bundle_call e projectDir buildDir file
                              (build_path buildDir
                                 [basename_ext (path_str file) ''.vr.js'' @ ''.bundle.js'']))
                         (filter (\<lambda>file. suffix ''.vr.js'' (path_str file)) contents),
            written = []\<rparr>"
proof -
  have "concat (map spawned (map (\<lambda>file. buildScript e projectDir buildDir file (g file)) xs
           @ map (\<lambda>file. replaceBundleExtensionsInHtml e file buildDir) ys))
      = map (\<lambda>file. bundle_call e projectDir buildDir file (g file)) xs" for g xs ys
    by (induction xs) (simp_all add: comp_def)
  then show ?thesis
    unfolding build_def assms(1) using assms(2) by (simp add: Let_def failed_def)
qed

text \<open>
  C9. Once the project is located, the output directory is there and the walk has
  returned its list: the client target is the first path of the list whose string holds
  \<open>client.js\<close> anywhere, so that a file \<open>client.json\<close> or \<open>myclient.js\<close> qualifies, and
  the bundler is spawned for it with the output \<open>client.bundle.js\<close>; when no path
  qualifies the run does not go on without the client bundle: it prints the failure
  message and exits with status 1, having spawned the bundlers of the component files
  only.
\<close>

theorem client_target:
  "locate e (cwd e) = Found projectDir
   \<and> make_build_dir e (cwd e, ''build'') = (msgs, Fulfilled)
   \<and> walk (fs e) projectDir exclude_names = Inr (Many contents) \<longrightarrow>
     (\<forall>client. find (\<lambda>f. string_indexOf (path_str f) ''client.js'' \<noteq> - 1) contents = Some client
        \<longrightarrow> (\<exists>i<length contents. contents ! i = client
                \<and> sublist ''client.js'' (path_str client)
                \<and> (\<forall>j<i. \<not> sublist ''client.js'' (path_str (contents ! j))))
            \<and> bundle_call e projectDir (cwd e, ''build'') client
                 (build_path (cwd e, ''build'') [''client.bundle.js''])
               \<in> set (launched (main e order)))
     \<and> ((\<forall>f \<in> set contents. \<not> sublist ''client.js'' (path_str f)) \<longrightarrow>
          main e order =
            \<lparr>status = Some 1, console = [Failure (Err TypeError)],
             launched = map (\<lambda>file. bundle_call e projectDir (cwd e, ''build'') file
                               (build_path (cwd e, ''build'')
                                  [basename_ext (path_str file) ''.vr.js'' @ ''.bundle.js'']))
                          (filter (\<lambda>file. suffix ''.vr.js'' (path_str file)) contents),
             written = []\<rparr>)
     \<and> sublist ''client.js'' (path_str (dir @ [''client.json'']))
     \<and> sublist ''client.js'' (path_str (dir @ [''myclient.js'']))"
proof (intro impI, elim conjE, intro conjI allI impI)
  assume loc: "locate e (cwd e) = Found projectDir"
    and mk: "make_build_dir e (cwd e, ''build'') = (msgs, Fulfilled)"
    and w: "walk (fs e) projectDir exclude_names = Inr (Many contents)"
  from loc mk have m: "main e order = build e projectDir (cwd e, ''build'') order"
    by (simp add: main_found)
  {
    fix client
    assume f: "find (\<lambda>f. string_indexOf (path_str f) ''client.js'' \<noteq> - 1) contents = Some client"
    then show "\<exists>i<length contents. contents ! i = client
                \<and> sublist ''client.js'' (path_str client)
                \<and> (\<forall>j<i. \<not> sublist ''client.js'' (path_str (contents ! j)))"
      unfolding find_Some_iff string_indexOf_sublist by blast
    from build_client [OF w f refl refl refl, of "(cwd e, ''build'')" order]
    show "bundle_call e projectDir (cwd e, ''build'') client
                 (build_path (cwd e, ''build'') [''client.bundle.js''])
               \<in> set (launched (main e order))"
      unfolding m by simp
  }
  {
    assume "\<forall>f \<in> set contents. \<not> sublist ''client.js'' (path_str f)"
    then have "find (\<lambda>f. string_indexOf (path_str f) ''client.js'' \<noteq> - 1) contents = None"
      by (simp add: find_None_iff string_indexOf_sublist)
    from build_no_client [OF w this] show "main e order =
            \<lparr>status = Some 1, console = [Failure (Err TypeError)],
             launched = map (\<lambda>file. bundle_call e projectDir (cwd e, ''build'') file
                               (build_path (cwd e, ''build'')
                                  [basename_ext (path_str file) ''.vr.js'' @ ''.bundle.js'']))
                          (filter (\<lambda>file. suffix ''.vr.js'' (path_str file)) contents),
             written = []\<rparr>"
      unfolding m .
  }
  have "path_str (dir @ [''client.json'']) = (concat (map (\<lambda>d. path_sep @ d) dir) @ path_sep) @ ''client.js'' @ ''on''"
    by (simp add: path_str_snoc)
  then show "sublist ''client.js'' (path_str (dir @ [''client.json'']))"
    unfolding sublist_def by blast
  have "path_str (dir @ [''myclient.js'']) = (concat (map (\<lambda>d. path_sep @ d) dir) @ path_sep @ ''my'') @ ''client.js'' @ []"
    by (simp add: path_str_snoc)
  then show "sublist ''client.js'' (path_str (dir @ [''myclient.js'']))"
    unfolding sublist_def by blast
qed

theorem client_target_witness:
  "bundle_call (scenario_env [] (\<lambda>c. Some 0)\<lparr>fs := json_fs\<rparr>) [''proj''] ([''proj''], ''build'')
      [''proj'', ''client.json''] [''proj'', ''build'', ''client.bundle.js'']
     \<in> set (launched (main (scenario_env [] (\<lambda>c. Some 0)\<lparr>fs := json_fs\<rparr>) []))
   \<and> main (scenario_env [] (\<lambda>c. Some 0)\<lparr>fs := bare_fs\<rparr>) [0, 1, 2]
     = \<lparr>status = Some 1, console = [Failure (Err TypeError)],
        launched = [bundle_call (scenario_env [] (\<lambda>c. Some 0)\<lparr>fs := bare_fs\<rparr>) [''proj'']
                      ([''proj''], ''build'') [''proj'', ''A.vr.js'']
                      [''proj'', ''build'', ''A.bundle.js'']],
        written = []\<rparr>"
proof -
  let ?e = "scenario_env [] (\<lambda>c. Some 0)\<lparr>fs := json_fs\<rparr>"
  let ?e' = "scenario_env [] (\<lambda>c. Some 0)\<lparr>fs := bare_fs\<rparr>"
  have c: "cwd ?e = [''proj'']" "cwd ?e' = [''proj'']" by (simp_all add: scenario_env_def)
  have l: "locate ?e (cwd ?e) = Found [''proj'']"
    by (rule locate_proj) (simp_all add: scenario_env_def json_fs_def)
  have l': "locate ?e' (cwd ?e') = Found [''proj'']"
    by (rule locate_proj) (simp_all add: scenario_env_def bare_fs_def)
  have mk: "make_build_dir ?e (cwd ?e, ''build'') = ([], Fulfilled)"
    by (simp add: make_build_dir_def scenario_env_def json_fs_def statSync_def resolve_def)
  have mk': "make_build_dir ?e' (cwd ?e', ''build'') = ([], Fulfilled)"
    by (simp add: make_build_dir_def scenario_env_def bare_fs_def statSync_def resolve_def)
  have w: "walk (fs ?e) [''proj''] exclude_names
      = Inr (Many [[''proj'', ''A.vr.js''], [''proj'', ''client.json''], [''proj'', ''client.js'']])"
    by (simp add: walk_def scenario_env_def json_fs_def exclude_names_def path_join_def)
  have w': "walk (fs ?e') [''proj''] exclude_names = Inr (Many [[''proj'', ''A.vr.js'']])"
    by (simp add: walk_def scenario_env_def bare_fs_def exclude_names_def path_join_def)
  have f: "find (\<lambda>f. string_indexOf (path_str f) ''client.js'' \<noteq> - 1)
             [[''proj'', ''A.vr.js''], [''proj'', ''client.json''], [''proj'', ''client.js'']]
           = Some [''proj'', ''client.json'']"
    by (simp add: path_sep_def)
  have n: "\<forall>f \<in> set [[''proj'', ''A.vr.js'']]. \<not> sublist ''client.js'' (path_str f)"
    by (simp add: path_sep_def sublist_Cons_right)
  from client_target [of ?e "[''proj'']" "[]" _ "[]" "[]"] l mk w f
  have one: "bundle_call ?e [''proj''] (cwd ?e, ''build'') [''proj'', ''client.json'']
                 (build_path (cwd ?e, ''build'') [''client.bundle.js''])
               \<in> set (launched (main ?e []))"
    by blast
  from client_target [of ?e' "[''proj'']" "[]" _ "[0, 1, 2]" "[]"] l' mk' w' n
  have "main ?e' [0, 1, 2] =
            \<lparr>status = Some 1, console = [Failure (Err TypeError)],
             launched = map (\<lambda>file. bundle_call ?e' [''proj''] (cwd ?e', ''build'') file
                               (build_path (cwd ?e', ''build'')
                                  [basename_ext (path_str file) ''.vr.js'' @ ''.bundle.js'']))
                          (filter (\<lambda>file. suffix ''.vr.js'' (path_str file)) [[''proj'', ''A.vr.js'']]),
             written = []\<rparr>"
    by blast
  then have two: "main ?e' [0, 1, 2] =
       \<lparr>status = Some 1, console = [Failure (Err TypeError)],
        launched = [bundle_call ?e' [''proj''] ([''proj''], ''build'') [''proj'', ''A.vr.js'']
                      [''proj'', ''build'', ''A.bundle.js'']],
        written = []\<rparr>"
    unfolding c
    by (simp add: path_sep_def suffix_to_prefix basename_ext_def basename_def Let_def)
  from one two show ?thesis unfolding c by simp
qed

theorem orchestrator_scenario_witness:
  "main (scenario_env (''<script src='' @ CHR 0x22 # ''foo.bundle.js'' @ CHR 0x22 # ''></script>'')
          (\<lambda>c. Some 0)) [4, 2, 0, 3, 1]
     = \<lparr>status = Some 0, console = [Success [''proj'', ''build'']],
        launched =
          [Spawn ''node''
             [Str ''/proj/node_modules/react-native/local-cli/cli.js'', Str ''bundle'',
              Str ''--entry-file'', Str ''/proj/A.vr.js'', Str ''--platform'', Str ''vr'',
              Str ''--bundle-output'', Str ''/proj/build/A.bundle.js'', Str ''--dev'', Str ''false'',
              Str ''--assets-dest'', Arr [''/proj'', ''build'']]
             [''proj''],
           Spawn ''node''
             [Str ''/proj/node_modules/react-native/local-cli/cli.js'', Str ''bundle'',
              Str ''--entry-file'', Str ''/proj/B.vr.js'', Str ''--platform'', Str ''vr'',
              Str ''--bundle-output'', Str ''/proj/build/B.bundle.js'', Str ''--dev'', Str ''false'',
              Str ''--assets-dest'', Arr [''/proj'', ''build'']]
             [''proj''],
           Spawn ''node''
             [Str ''/proj/node_modules/react-native/local-cli/cli.js'', Str ''bundle'',
              Str ''--entry-file'', Str ''/proj/client.js'', Str ''--platform'', Str ''vr'',
              Str ''--bundle-output'', Str ''/proj/build/client.bundle.js'', Str ''--dev'',
              Str ''false'', Str ''--assets-dest'', Arr [''/proj'', ''build'']]
             [''proj''],
           Spawn ''cp'' [Str ''-r'', Str ''/proj/static_assets'', Str ''/proj/build/static_assets'']
             [''proj'']],
        written =
          [([''proj'', ''build'', ''index.html''],
            ''<script src='' @ CHR 0x22 # ''/foo.bundle.js'' @ CHR 0x22 # ''></script>'')]\<rparr>
   \<and> status (main (scenario_env
                    (''<script src='' @ CHR 0x22 # ''foo.bundle.js'' @ CHR 0x22 # ''></script>'')
                    (\<lambda>c. case c of Spawn exe args dir \<Rightarrow>
                            if Str ''/proj/B.vr.js'' \<in> set args then Some 2 else Some 0))
             [4, 2, 0, 3, 1]) = Some 1"
proof -
  let ?html = "''<script src='' @ CHR 0x22 # ''foo.bundle.js'' @ CHR 0x22 # ''></script>''"
  let ?two = "\<lambda>c. case c of Spawn exe args dir \<Rightarrow>
                 if Str ''/proj/B.vr.js'' \<in> set args then Some (2::int) else Some 0"
  have pre: "\<not> sublist ''.bundle'' ''<script src=''"
    and post: "\<not> sublist ''.bundle'' ''></script>''"
    by (simp_all add: sublist_Cons_right)
  have ms: "String_match ?html = Some [''foo.bundle.js'']"
    using match_all_foo [OF pre post] by (simp add: String_match_def)
  have ord: "{0, 1, 2, 3, 4} \<subseteq> set [4, 2, 0, 3, 1::nat]" by simp
  have fold: "foldl (\<lambda>d p. string_replace d p (updatedPath p)) ?html [''foo.bundle.js'']
      = ''<script src='' @ CHR 0x22 # ''/foo.bundle.js'' @ CHR 0x22 # ''></script>''"
    using replace_foo [OF pre, of "''></script>''"] by (simp add: updatedPath_foo)
  have calls:
    "bundle_call (scenario_env ?html codes) [''proj''] ([''proj''], ''build'') src out =
       Spawn ''node''
         [Str ''/proj/node_modules/react-native/local-cli/cli.js'', Str ''bundle'',
          Str ''--entry-file'', Str (path_str src), Str ''--platform'', Str ''vr'',
          Str ''--bundle-output'', Str (path_str out), Str ''--dev'', Str ''false'',
          Str ''--assets-dest'', Arr [''/proj'', ''build'']]
         [''proj'']" for codes src out
    by (simp add: bundle_call_def cliLocation_def scenario_env_def path_sep_def)
  have good: "main (scenario_env ?html (\<lambda>c. Some 0)) [4, 2, 0, 3, 1] =
      \<lparr>status = Some 0, console = [Success [''proj'', ''build'']],
       launched =
         [bundle_call (scenario_env ?html (\<lambda>c. Some 0)) [''proj''] ([''proj''], ''build'')
            [''proj'', ''A.vr.js''] [''proj'', ''build'', ''A.bundle.js''],
          bundle_call (scenario_env ?html (\<lambda>c. Some 0)) [''proj''] ([''proj''], ''build'')
            [''proj'', ''B.vr.js''] [''proj'', ''build'', ''B.bundle.js''],
          bundle_call (scenario_env ?html (\<lambda>c. Some 0)) [''proj''] ([''proj''], ''build'')
            [''proj'', ''client.js''] [''proj'', ''build'', ''client.bundle.js''],
          copy_call [''proj''] [''proj'', ''static_assets''] [''proj'', ''build'', ''static_assets'']],
       written = [([''proj'', ''build'', ''index.html''],
                   foldl (\<lambda>d p. string_replace d p (updatedPath p)) ?html [''foo.bundle.js''])]\<rparr>"
    using orchestrator_scenario [of ?html "[''foo.bundle.js'']" "[4, 2, 0, 3, 1]" "\<lambda>c. Some 0"] ms ord
    unfolding Let_def by blast
  have b: "?two (bundle_call (scenario_env ?html ?two) [''proj''] ([''proj''], ''build'')
             [''proj'', ''B.vr.js''] [''proj'', ''build'', ''B.bundle.js'']) \<noteq> Some 0"
    unfolding calls by (simp add: path_sep_def)
  have bad: "status (main (scenario_env ?html ?two) [4, 2, 0, 3, 1]) = Some 1"
    using orchestrator_scenario [of ?html "[''foo.bundle.js'']" "[4, 2, 0, 3, 1]" ?two] ms ord b
    unfolding Let_def by blast
  show ?thesis
    unfolding good fold calls using bad by (simp add: copy_call_def path_sep_def)
qed

end
